theory Spec2Isabelle
  imports Main "HOL-Library.Word" "HOL-Library.Signed_Division"
begin

section \<open>Machine integers\<close>

text \<open>
  Go's \<open>int\<close> on a 64-bit platform and \<open>time.Duration\<close> (an \<open>int64\<close> count of
  nanoseconds) are 64-bit two's complement words: \<open>+\<close>, \<open>-\<close>, \<open>*\<close> and unary minus wrap
  around, comparisons are signed (\<open><s\<close>), and \<open>/\<close> truncates towards zero.
\<close>

type_synonym int64 = "64 word"

definition MinInt64 :: int64 where
  "MinInt64 = 0x8000000000000000"


text \<open>The constants of package \<open>time\<close>, in nanoseconds.\<close>

definition Second :: int64 where "Second = 1000000000"
definition Minute :: int64 where "Minute = 60000000000"
definition Hour :: int64 where "Hour = 3600000000000"

section \<open>float64\<close>

text \<open>
  A \<open>float64\<close> is an IEEE 754 binary64 value. \<open>Finite s k\<close> has the sign bit \<open>s\<close>
  (\<open>True\<close> for negative) and the remaining 63 bits \<open>k\<close> of the encoding read as a number:
  the biased exponent times \<open>2^52\<close> plus the fraction, so \<open>k < 2047 * 2^52\<close> for every
  value that exists (\<open>valid_float64\<close>). The two infinities and a single NaN stand apart
  (Go programs that do not inspect bit patterns cannot tell NaNs apart).
\<close>

datatype float64 = Finite bool nat | Infinity bool | NaN

fun valid_float64 :: "float64 \<Rightarrow> bool" where
  "valid_float64 (Finite s k) = (k < 2047 * 2 ^ 52)"
| "valid_float64 (Infinity s) = True"
| "valid_float64 NaN = True"

text \<open>
  The magnitude of \<open>Finite s k\<close> is \<open>mant k * 2 ^ bexp k / 2 ^ 1075\<close>, kept as the
  fraction \<open>fnum k / fden k\<close> of two natural numbers (one of the two powers is 1).
\<close>

definition mant :: "nat \<Rightarrow> nat" where
  "mant k = (if k < 2 ^ 52 then k else 2 ^ 52 + k mod 2 ^ 52)"

definition bexp :: "nat \<Rightarrow> nat" where
  "bexp k = max 1 (k div 2 ^ 52)"

definition fnum :: "nat \<Rightarrow> nat" where
  "fnum k = mant k * 2 ^ (bexp k - 1075)"

definition fden :: "nat \<Rightarrow> nat" where
  "fden k = 2 ^ (1075 - bexp k)"

definition snum :: "bool \<Rightarrow> nat \<Rightarrow> int" where
  "snum s k = (if s then - int (fnum k) else int (fnum k))"

definition fzero :: float64 where
  "fzero = Finite False 0"

fun is_nan :: "float64 \<Rightarrow> bool" where
  "is_nan NaN = True"
| "is_nan _ = False"

fun is_finite :: "float64 \<Rightarrow> bool" where
  "is_finite (Finite s k) = True"
| "is_finite _ = False"

text \<open>Unary minus flips the sign, also of zero and of the infinities.\<close>

fun fneg :: "float64 \<Rightarrow> float64" where
  "fneg (Finite s k) = Finite (\<not> s) k"
| "fneg (Infinity s) = Infinity (\<not> s)"
| "fneg NaN = NaN"

text \<open>\<open>==\<close> and \<open><\<close> on float64: by value, \<open>-0 == +0\<close>, and false whenever a NaN is involved.\<close>

fun feq :: "float64 \<Rightarrow> float64 \<Rightarrow> bool" where
  "feq (Finite s k) (Finite s' k') = (snum s k * int (fden k') = snum s' k' * int (fden k))"
| "feq (Infinity s) (Infinity s') = (s = s')"
| "feq _ _ = False"

fun flt :: "float64 \<Rightarrow> float64 \<Rightarrow> bool" where
  "flt (Finite s k) (Finite s' k') = (snum s k * int (fden k') < snum s' k' * int (fden k))"
| "flt (Finite s k) (Infinity s') = (\<not> s')"
| "flt (Infinity s) (Finite s' k') = s"
| "flt (Infinity s) (Infinity s') = (s \<and> \<not> s')"
| "flt _ _ = False"

subsection \<open>Rounding to nearest, ties to even\<close>

fun bitlen_nat :: "nat \<Rightarrow> nat" where
  "bitlen_nat n = (if n = 0 then 0 else Suc (bitlen_nat (n div 2)))"

text \<open>\<open>flog2 n d\<close> is \<open>\<lfloor>log\<^sub>2 (n / d)\<rfloor>\<close> for positive \<open>n\<close> and \<open>d\<close>.\<close>

definition flog2 :: "nat \<Rightarrow> nat \<Rightarrow> int" where
  "flog2 n d =
     (let c = int (bitlen_nat n) - int (bitlen_nat d)
      in if (if 0 \<le> c then d * 2 ^ nat c \<le> n else d \<le> n * 2 ^ nat (- c)) then c else c - 1)"

text \<open>
  \<open>round_frac s n d\<close> is the float64 nearest to the exact value \<open>\<plusminus> n / d\<close> (\<open>d > 0\<close>):
  the value is scaled so that its integer part \<open>m\<close> is the 53-bit significand (fewer bits
  for a subnormal result), the remainder decides the rounding, and a carry out of the
  significand moves to the next exponent because the encoding \<open>k\<close> is monotone. What rounds
  to \<open>2^1024\<close> or more is an infinity.
\<close>

definition round_frac :: "bool \<Rightarrow> nat \<Rightarrow> nat \<Rightarrow> float64" where
  "round_frac s n d =
     (if n = 0 then Finite s 0
      else
        let e = max (flog2 n d) (- 1022);
            sn = n * 2 ^ nat (52 - e);
            sd = d * 2 ^ nat (e - 52);
            m = sn div sd;
            r = sn mod sd;
            k0 = nat (e + 1022) * 2 ^ 52 + m;
            k = (if sd < 2 * r \<or> (2 * r = sd \<and> odd m) then k0 + 1 else k0)
        in if k < 2047 * 2 ^ 52 then Finite s k else Infinity s)"

subsection \<open>Arithmetic\<close>

fun fmul :: "float64 \<Rightarrow> float64 \<Rightarrow> float64" where
  "fmul (Finite s k) (Finite s' k') = round_frac (s \<noteq> s') (fnum k * fnum k') (fden k * fden k')"
| "fmul (Finite s k) (Infinity s') = (if k = 0 then NaN else Infinity (s \<noteq> s'))"
| "fmul (Infinity s) (Finite s' k') = (if k' = 0 then NaN else Infinity (s \<noteq> s'))"
| "fmul (Infinity s) (Infinity s') = Infinity (s \<noteq> s')"
| "fmul _ _ = NaN"


text \<open>
  A sum or difference that is exactly zero is \<open>+0\<close>, except \<open>(-0) + (-0)\<close> and
  \<open>(-0) - (+0)\<close>, which are \<open>-0\<close>.
\<close>

fun fadd :: "float64 \<Rightarrow> float64 \<Rightarrow> float64" where
  "fadd (Finite s k) (Finite s' k') =
     (let r = snum s k * int (fden k') + snum s' k' * int (fden k)
      in if r = 0 then Finite (s \<and> s') 0 else round_frac (r < 0) (nat \<bar>r\<bar>) (fden k * fden k'))"
| "fadd (Finite s k) (Infinity s') = Infinity s'"
| "fadd (Infinity s) (Finite s' k') = Infinity s"
| "fadd (Infinity s) (Infinity s') = (if s = s' then Infinity s else NaN)"
| "fadd _ _ = NaN"

fun fsub :: "float64 \<Rightarrow> float64 \<Rightarrow> float64" where
  "fsub (Finite s k) (Finite s' k') =
     (let r = snum s k * int (fden k') - snum s' k' * int (fden k)
      in if r = 0 then Finite (s \<and> \<not> s') 0 else round_frac (r < 0) (nat \<bar>r\<bar>) (fden k * fden k'))"
| "fsub (Finite s k) (Infinity s') = Infinity (\<not> s')"
| "fsub (Infinity s) (Finite s' k') = Infinity s"
| "fsub (Infinity s) (Infinity s') = (if s = s' then NaN else Infinity s)"
| "fsub _ _ = NaN"

subsection \<open>Conversions\<close>

text \<open>
  \<open>int64(f)\<close> drops the fraction. The Go specification leaves the result
  implementation-dependent when the value does not fit; this is the amd64 result
  (\<open>0x8000000000000000\<close>, also for NaN and the infinities).
\<close>

fun float64_to_int64 :: "float64 \<Rightarrow> int64" where
  "float64_to_int64 (Finite s k) =
     (let t = int (fnum k div fden k); v = (if s then - t else t)
      in if - (2 ^ 63) \<le> v \<and> v < 2 ^ 63 then word_of_int v else MinInt64)"
| "float64_to_int64 _ = MinInt64"

text \<open>\<open>float64(n)\<close> rounds to nearest.\<close>

definition int64_to_float64 :: "int64 \<Rightarrow> float64" where
  "int64_to_float64 n = round_frac (sint n < 0) (nat \<bar>sint n\<bar>) 1"

section \<open>The data model\<close>

record Duration =
  Y :: int64
  M :: int64
  W :: int64
  D :: int64
  TH :: int64
  TM :: int64
  TS :: float64

definition zero_Duration :: Duration where
  "zero_Duration = \<lparr>Y = 0, M = 0, W = 0, D = 0, TH = 0, TM = 0, TS = fzero\<rparr>"

definition IsZero :: "Duration \<Rightarrow> bool" where
  "IsZero d \<longleftrightarrow>
     Y d = 0 \<and> M d = 0 \<and> W d = 0 \<and> D d = 0 \<and> TH d = 0 \<and> TM d = 0 \<and> feq (TS d) fzero"

definition IsNegative :: "Duration \<Rightarrow> bool" where
  "IsNegative d \<longleftrightarrow>
     Y d <s 0 \<or> M d <s 0 \<or> W d <s 0 \<or> D d <s 0 \<or> TH d <s 0 \<or> TM d <s 0 \<or> flt (TS d) fzero"

definition Negate :: "Duration \<Rightarrow> Duration" where
  "Negate d =
     \<lparr>Y = - Y d, M = - M d, W = - W d, D = - D d, TH = - TH d, TM = - TM d, TS = fneg (TS d)\<rparr>"

definition HasTimePart :: "Duration \<Rightarrow> bool" where
  "HasTimePart d \<longleftrightarrow> TH d \<noteq> 0 \<or> TM d \<noteq> 0 \<or> \<not> feq (TS d) fzero"

section \<open>Arithmetic and comparison\<close>

definition Add :: "Duration \<Rightarrow> Duration \<Rightarrow> Duration" where
  "Add d other =
     \<lparr>Y = Y d + Y other, M = M d + M other, W = W d + W other, D = D d + D other,
      TH = TH d + TH other, TM = TM d + TM other, TS = fadd (TS d) (TS other)\<rparr>"

definition Subtract :: "Duration \<Rightarrow> Duration \<Rightarrow> Duration" where
  "Subtract d other =
     \<lparr>Y = Y d - Y other, M = M d - M other, W = W d - W other, D = D d - D other,
      TH = TH d - TH other, TM = TM d - TM other, TS = fsub (TS d) (TS other)\<rparr>"

definition Multiply :: "Duration \<Rightarrow> int64 \<Rightarrow> Duration" where
  "Multiply d n =
     \<lparr>Y = Y d * n, M = M d * n, W = W d * n, D = D d * n,
      TH = TH d * n, TM = TM d * n, TS = fmul (TS d) (int64_to_float64 n)\<rparr>"

definition Equal :: "Duration \<Rightarrow> Duration \<Rightarrow> bool" where
  "Equal d other \<longleftrightarrow>
     Y d = Y other \<and> M d = M other \<and> W d = W other \<and> D d = D other \<and>
     TH d = TH other \<and> TM d = TM other \<and> feq (TS d) (TS other)"

text \<open>
  \<open>LessThan\<close>, statement by statement: inside the guarded block each \<open>if\<close> returns at the
  first date field that differs; when none differs, control leaves the block and reaches
  the comparison of the time fields.
\<close>

definition LessThan :: "Duration \<Rightarrow> Duration \<Rightarrow> bool" where
  "LessThan d other =
     (let time_part =
        (if TH d \<noteq> TH other then TH d <s TH other
         else if TM d \<noteq> TM other then TM d <s TM other
         else flt (TS d) (TS other))
      in
        if Y d \<noteq> 0 \<or> M d \<noteq> 0 \<or> W d \<noteq> 0 \<or> D d \<noteq> 0 \<or>
           Y other \<noteq> 0 \<or> M other \<noteq> 0 \<or> W other \<noteq> 0 \<or> D other \<noteq> 0
        then
          (if Y d \<noteq> Y other then Y d <s Y other
           else if M d \<noteq> M other then M d <s M other
           else if W d \<noteq> W other then W d <s W other
           else if D d \<noteq> D other then D d <s D other
           else time_part)
        else time_part)"

definition GreaterThan :: "Duration \<Rightarrow> Duration \<Rightarrow> bool" where
  "GreaterThan d other = LessThan other d"

section \<open>Shifting a point in time\<close>

text \<open>
  \<open>timeDuration\<close> sums into an \<open>int64\<close> count of nanoseconds; \<open>float64(time.Second)\<close> is
  the constant \<open>1e9\<close>.
\<close>

definition timeDuration :: "Duration \<Rightarrow> int64" where
  "timeDuration d =
     0 + TH d * Hour + TM d * Minute
       + float64_to_int64 (fmul (TS d) (int64_to_float64 Second))"

text \<open>
  \<open>time.Time\<close> belongs to the host: the type of points in time is a parameter \<open>'t\<close>, and
  \<open>Shift\<close> and \<open>Unshift\<close> take the two methods they call, \<open>t.AddDate(years, months, days)\<close>
  and \<open>t.Add(d)\<close>, as arguments.
\<close>

definition Shift ::
  "('t \<Rightarrow> int64 \<Rightarrow> int64 \<Rightarrow> int64 \<Rightarrow> 't) \<Rightarrow> ('t \<Rightarrow> int64 \<Rightarrow> 't) \<Rightarrow> Duration \<Rightarrow> 't \<Rightarrow> 't" where
  "Shift Time_AddDate Time_Add d t =
     (let t1 = (if Y d \<noteq> 0 \<or> M d \<noteq> 0 \<or> W d \<noteq> 0 \<or> D d \<noteq> 0
                then (let days = W d * 7 + D d in Time_AddDate t (Y d) (M d) days)
                else t)
      in Time_Add t1 (timeDuration d))"

definition Unshift ::
  "('t \<Rightarrow> int64 \<Rightarrow> int64 \<Rightarrow> int64 \<Rightarrow> 't) \<Rightarrow> ('t \<Rightarrow> int64 \<Rightarrow> 't) \<Rightarrow> Duration \<Rightarrow> 't \<Rightarrow> 't" where
  "Unshift Time_AddDate Time_Add d t =
     (let t1 = (if Y d \<noteq> 0 \<or> M d \<noteq> 0 \<or> W d \<noteq> 0 \<or> D d \<noteq> 0
                then (let days = W d * 7 + D d in Time_AddDate t (- Y d) (- M d) (- days))
                else t)
      in Time_Add t1 (- timeDuration d))"

section \<open>The bridge to time.Duration\<close>



section \<open>Errors\<close>

text \<open>
  The errors the package returns: its own "could not parse duration string", the two
  errors of \<open>strconv\<close> (\<open>ErrSyntax\<close>, \<open>ErrRange\<close>), and an error of template execution.
\<close>

datatype error = ErrParse | ErrSyntax | ErrRange | ErrExec

section \<open>Decimal numerals\<close>

definition is_digit :: "char \<Rightarrow> bool" where
  "is_digit c \<longleftrightarrow> c \<in> set ''0123456789''"

definition digit_val :: "char \<Rightarrow> nat" where
  "digit_val c = of_char c - 48"

definition digits_val :: "string \<Rightarrow> nat" where
  "digits_val s = foldl (\<lambda>n c. n * 10 + digit_val c) 0 s"

fun nat_digits :: "nat \<Rightarrow> string" where
  "nat_digits n =
     (if n < 10 then [''0123456789'' ! n]
      else nat_digits (n div 10) @ [''0123456789'' ! (n mod 10)])"

text \<open>An optional leading sign, as \<open>strconv\<close> reads it.\<close>

definition split_sign :: "string \<Rightarrow> bool \<times> string" where
  "split_sign s =
     (case s of
        [] \<Rightarrow> (False, [])
      | c # r \<Rightarrow>
          if c = CHR ''-'' then (True, r) else if c = CHR ''+'' then (False, r) else (False, s))"

text \<open>
  \<open>strconv.Atoi\<close>: base 10, \<open>ErrSyntax\<close> unless the text is an optional sign and at least
  one digit, \<open>ErrRange\<close> when the value does not fit the 64-bit \<open>int\<close>.
\<close>

definition Atoi :: "string \<Rightarrow> error + int64" where
  "Atoi s =
     (let (neg, ds) = split_sign s
      in if ds = [] \<or> \<not> list_all is_digit ds then Inl ErrSyntax
         else
           let n = digits_val ds
           in if neg then (if n \<le> 2 ^ 63 then Inr (- word_of_nat n) else Inl ErrRange)
              else (if n < 2 ^ 63 then Inr (word_of_nat n) else Inl ErrRange))"

text \<open>
  \<open>strconv.ParseFloat(s, 64)\<close> on decimal numerals without exponent, which is all the
  pattern below can capture: an optional sign, digits, and optionally a point and more
  digits (at least one digit in all). The result is the float64 nearest to the decimal
  value; a value that rounds to an infinity is \<open>ErrRange\<close>. The other forms Go accepts
  (exponents, hexadecimal, underscores, \<open>inf\<close>, \<open>nan\<close>) are not modelled and read as
  \<open>ErrSyntax\<close> here.
\<close>

definition ParseFloat :: "string \<Rightarrow> error + float64" where
  "ParseFloat s =
     (let (neg, body) = split_sign s;
          ip = takeWhile (\<lambda>c. c \<noteq> CHR ''.'') body;
          fp = drop 1 (dropWhile (\<lambda>c. c \<noteq> CHR ''.'') body)
      in if ip @ fp = [] \<or> \<not> list_all is_digit (ip @ fp) then Inl ErrSyntax
         else
           (case round_frac neg (digits_val (ip @ fp)) (10 ^ length fp) of
              Infinity b \<Rightarrow> Inl ErrRange
            | f \<Rightarrow> Inr f))"

section \<open>The pattern\<close>

text \<open>
  The regular expressions the pattern is built from: a literal character, \<open>\d+\<close>, a
  sequence, \<open>r?\<close>, and a capturing group with its name (empty for an unnamed group; the
  non-capturing group \<open>(?:...)\<close> is its content). \<open>pattern\<close> is the source's expression,
  group for group; its anchors \<open>^\<close> and \<open>$\<close> make a match a match of the whole input.
\<close>

datatype regex =
  Chr char
| Digits
| Seq regex regex
| Opt regex
| Group string regex

definition unit_group :: "string \<Rightarrow> char \<Rightarrow> regex" where
  "unit_group name u = Opt (Group [] (Seq (Group name Digits) (Chr u)))"

definition pattern :: regex where
  "pattern =
     Seq (Opt (Group [] (Chr CHR ''-'')))
    (Seq (Chr CHR ''P'')
    (Seq (unit_group ''year'' CHR ''Y'')
    (Seq (unit_group ''month'' CHR ''M'')
    (Seq (unit_group ''week'' CHR ''W'')
    (Seq (unit_group ''day'' CHR ''D'')
         (Opt (Group []
           (Seq (Chr CHR ''T'')
           (Seq (unit_group ''hour'' CHR ''H'')
           (Seq (unit_group ''minute'' CHR ''M'')
                (Opt (Group []
                  (Seq (Group ''second'' (Seq Digits (Opt (Seq (Chr CHR ''.'') Digits))))
                       (Chr CHR ''S''))))))))))))))"

text \<open>The names of the groups, in the order of their opening parentheses.\<close>

fun group_names :: "regex \<Rightarrow> string list" where
  "group_names (Chr c) = []"
| "group_names Digits = []"
| "group_names (Seq a b) = group_names a @ group_names b"
| "group_names (Opt a) = group_names a"
| "group_names (Group name a) = name # group_names a"

text \<open>\<open>SubexpNames\<close>: the name of group 0, the whole match, is empty.\<close>

definition SubexpNames :: "regex \<Rightarrow> string list" where
  "SubexpNames r = [] # group_names r"

text \<open>What is left of the input after \<open>\d+\<close> has taken one or more digits, most digits first.\<close>

fun digits_rests :: "string \<Rightarrow> string list" where
  "digits_rests [] = []"
| "digits_rests (c # cs) = (if is_digit c then digits_rests cs @ [cs] else [])"

text \<open>
  \<open>rmatch r s\<close> lists the ways \<open>r\<close> matches a prefix of \<open>s\<close>, in the order a backtracking
  matcher tries them (Go's leftmost-first rule: an optional part is tried present before
  absent, a repetition longest first). Each way is the text of the groups of \<open>r\<close>, empty for
  a group that took no part, and the rest of the input.
\<close>

fun rmatch :: "regex \<Rightarrow> string \<Rightarrow> (string list \<times> string) list" where
  "rmatch (Chr c) s = (case s of [] \<Rightarrow> [] | x # xs \<Rightarrow> if x = c then [([], xs)] else [])"
| "rmatch Digits s = map (\<lambda>r. ([], r)) (digits_rests s)"
| "rmatch (Seq a b) s =
     concat (map (\<lambda>(ca, s1). map (\<lambda>(cb, s2). (ca @ cb, s2)) (rmatch b s1)) (rmatch a s))"
| "rmatch (Opt a) s = rmatch a s @ [(map (\<lambda>n. []) (group_names a), s)]"
| "rmatch (Group name a) s =
     map (\<lambda>(ca, s1). (take (length s - length s1) s # ca, s1)) (rmatch a s)"

text \<open>\<open>FindStringSubmatch\<close> for an anchored expression: the first way that leaves nothing.\<close>

definition FindStringSubmatch :: "regex \<Rightarrow> string \<Rightarrow> string list option" where
  "FindStringSubmatch r s =
     (case filter (\<lambda>(c, rest). rest = []) (rmatch r s) of
        [] \<Rightarrow> None
      | (c, rest) # others \<Rightarrow> Some (s # c))"

definition MatchString :: "regex \<Rightarrow> string \<Rightarrow> bool" where
  "MatchString r s \<longleftrightarrow> FindStringSubmatch r s \<noteq> None"

section \<open>The parser\<close>

definition set_int_field :: "string \<Rightarrow> int64 \<Rightarrow> Duration \<Rightarrow> Duration" where
  "set_int_field name val d =
     (if name = ''year'' then d\<lparr>Y := val\<rparr>
      else if name = ''month'' then d\<lparr>M := val\<rparr>
      else if name = ''week'' then d\<lparr>W := val\<rparr>
      else if name = ''day'' then d\<lparr>D := val\<rparr>
      else if name = ''hour'' then d\<lparr>TH := val\<rparr>
      else if name = ''minute'' then d\<lparr>TM := val\<rparr>
      else d)"

text \<open>
  The loop over the groups: a pair is a group's name and its text. The function returns
  what the Go function returns, the Duration together with the error (\<open>None\<close> for \<open>nil\<close>);
  on a conversion error that is \<open>return d, err\<close> with \<open>d\<close> as the loop has left it.
\<close>

fun parse_groups :: "bool \<Rightarrow> (string \<times> string) list \<Rightarrow> Duration \<Rightarrow> Duration \<times> error option" where
  "parse_groups negative [] d = (d, None)"
| "parse_groups negative ((name, part) # rest) d =
     (if name = [] \<or> part = [] then parse_groups negative rest d
      else if name \<in> set [''year'', ''month'', ''week'', ''day'', ''hour'', ''minute''] then
        (case Atoi part of
           Inl err \<Rightarrow> (d, Some err)
         | Inr v \<Rightarrow>
             parse_groups negative rest (set_int_field name (if negative then - v else v) d))
      else if name = ''second'' then
        (case ParseFloat part of
           Inl err \<Rightarrow> (d, Some err)
         | Inr v \<Rightarrow> parse_groups negative rest (d\<lparr>TS := (if negative then fneg v else v)\<rparr>))
      else parse_groups negative rest d)"

definition ParseISO8601 :: "string \<Rightarrow> Duration \<times> error option" where
  "ParseISO8601 from =
     (case FindStringSubmatch pattern from of
        None \<Rightarrow> (zero_Duration, Some ErrParse)
      | Some match \<Rightarrow>
          parse_groups (from \<noteq> [] \<and> hd from = CHR ''-'')
            (drop 1 (zip (SubexpNames pattern) match)) zero_Duration)"

section \<open>Formatting numbers\<close>

text \<open>\<open>fmt.Sprint\<close> of an \<open>int\<close>: decimal, with a minus sign for a negative value.\<close>

definition Itoa :: "int64 \<Rightarrow> string" where
  "Itoa n = (if sint n < 0 then CHR ''-'' # nat_digits (nat (- sint n)) else nat_digits (nat (sint n)))"

text \<open>
  A decimal as package \<open>strconv\<close> holds it while formatting: the digits \<open>ds\<close> and the
  position \<open>dp\<close> of the decimal point, for the value \<open>0.ds * 10 ^ dp\<close>.

  \<open>lead_zeros n d\<close> counts the zeros between the decimal point and the first non-zero
  digit of \<open>n / d < 1\<close>; \<open>dec_point n d\<close> is the \<open>dp\<close> of \<open>n / d\<close>.
\<close>

function lead_zeros :: "nat \<Rightarrow> nat \<Rightarrow> nat" where
  "lead_zeros n d = (if n = 0 \<or> d \<le> n * 10 then 0 else Suc (lead_zeros (n * 10) d))"
  by pat_completeness auto
termination
  by (relation "measure (\<lambda>(n, d). d - n)") auto

definition dec_point :: "nat \<Rightarrow> nat \<Rightarrow> int" where
  "dec_point n d = (if d \<le> n then int (length (nat_digits (n div d))) else - int (lead_zeros n d))"

text \<open>
  The shortest formatting (precision \<open>-1\<close>): the fewest significant digits that
  \<open>ParseFloat\<close> reads back as the same float64. \<open>candidates n d dp nd\<close> are the two
  \<open>nd\<close>-digit decimals around \<open>n / d\<close>, as integers scaled by \<open>10 ^ (nd - dp)\<close>, the nearer
  one first; \<open>reads_back k dp nd c\<close> holds when \<open>c * 10 ^ (dp - nd)\<close> rounds to the float64
  of magnitude \<open>k\<close>. Seventeen digits always suffice for a float64; the search falls back to
  the nearest 17-digit decimal.
\<close>

definition candidates :: "nat \<Rightarrow> nat \<Rightarrow> int \<Rightarrow> nat \<Rightarrow> nat list" where
  "candidates n d dp nd =
     (let a = n * 10 ^ nat (int nd - dp);
          b = d * 10 ^ nat (dp - int nd);
          lo = a div b;
          r = a mod b
      in if r = 0 then [lo]
         else if 2 * r < b \<or> (2 * r = b \<and> even lo) then [lo, lo + 1]
         else [lo + 1, lo])"

definition reads_back :: "nat \<Rightarrow> int \<Rightarrow> nat \<Rightarrow> nat \<Rightarrow> bool" where
  "reads_back k dp nd c \<longleftrightarrow>
     round_frac False (c * 10 ^ nat (dp - int nd)) (10 ^ nat (int nd - dp)) = Finite False k"

fun shortest_from :: "nat \<Rightarrow> int \<Rightarrow> nat list \<Rightarrow> nat \<times> nat" where
  "shortest_from k dp [] = (hd (candidates (fnum k) (fden k) dp 17), 17)"
| "shortest_from k dp (nd # nds) =
     (case filter (reads_back k dp nd) (candidates (fnum k) (fden k) dp nd) of
        [] \<Rightarrow> shortest_from k dp nds
      | c # cs \<Rightarrow> (c, nd))"

definition digit_counts :: "nat list" where
  "digit_counts = [1, 2, 3, 4, 5, 6, 7, 8, 9, 10, 11, 12, 13, 14, 15, 16, 17]"

text \<open>
  The digits and decimal point of the shortest decimal for the magnitude \<open>k > 0\<close>, without
  trailing zeros (a candidate that was rounded up to \<open>10 ^ nd\<close> has one digit more).
\<close>

definition shortest_decimal :: "nat \<Rightarrow> string \<times> int" where
  "shortest_decimal k =
     (let dp = dec_point (fnum k) (fden k);
          (c, nd) = shortest_from k dp digit_counts;
          ds = nat_digits c
      in (rev (dropWhile (\<lambda>x. x = CHR ''0'') (rev ds)), dp + int (length ds) - int nd))"

text \<open>\<open>%e\<close>: \<open>d.ddde\<plusminus>dd\<close>, with at least two digits of exponent.\<close>

definition fmtE :: "string \<Rightarrow> int \<Rightarrow> string" where
  "fmtE ds dp =
     (let ex = dp - 1;
          ax = nat \<bar>ex\<bar>
      in take 1 ds @ (if 1 < length ds then CHR ''.'' # drop 1 ds else [])
         @ [CHR ''e'', if ex < 0 then CHR ''-'' else CHR ''+'']
         @ (if ax < 10 then CHR ''0'' # nat_digits ax else nat_digits ax))"

text \<open>\<open>%f\<close> with as many digits after the point as the decimal has.\<close>

definition fmtF :: "string \<Rightarrow> int \<Rightarrow> string" where
  "fmtF ds dp =
     (let nd = int (length ds)
      in (if 0 < dp then take (nat dp) ds @ replicate (nat (dp - nd)) CHR ''0'' else ''0'')
         @ (if dp < nd then CHR ''.'' # replicate (nat (- dp)) CHR ''0'' @ drop (nat dp) ds else []))"

text \<open>
  \<open>fmt.Sprintf("%g", f)\<close>: the shortest decimal, in \<open>%e\<close> form when its exponent is less
  than \<open>-4\<close> or at least \<open>6\<close> (strconv's rule for the shortest precision) and in \<open>%f\<close> form
  otherwise. \<open>fmt\<close> writes the infinities with their sign.
\<close>

fun Sprintf_g :: "float64 \<Rightarrow> string" where
  "Sprintf_g NaN = ''NaN''"
| "Sprintf_g (Infinity s) = (if s then ''-Inf'' else ''+Inf'')"
| "Sprintf_g (Finite s k) =
     (if s then ''-'' else [])
     @ (if k = 0 then ''0''
        else
          let (ds, dp) = shortest_decimal k
          in if dp - 1 < - 4 \<or> 6 \<le> dp - 1 then fmtE ds dp else fmtF ds dp)"

text \<open>\<open>fmt.Sprintf("%.0f", f)\<close>: the exact value rounded to an integer, ties to even.\<close>

fun Sprintf_f0 :: "float64 \<Rightarrow> string" where
  "Sprintf_f0 NaN = ''NaN''"
| "Sprintf_f0 (Infinity s) = (if s then ''-Inf'' else ''+Inf'')"
| "Sprintf_f0 (Finite s k) =
     (let q = fnum k div fden k;
          r = fnum k mod fden k
      in (if s then ''-'' else [])
         @ nat_digits (if fden k < 2 * r \<or> (2 * r = fden k \<and> odd q) then q + 1 else q))"

section \<open>The template\<close>

text \<open>The four functions of the template's \<open>FuncMap\<close>.\<close>

definition formatSeconds :: "float64 \<Rightarrow> string" where
  "formatSeconds ts =
     (if feq ts (int64_to_float64 (float64_to_int64 ts)) then Sprintf_f0 ts else Sprintf_g ts)"

definition isNegative :: "Duration \<Rightarrow> bool" where
  "isNegative d \<longleftrightarrow>
     Y d <s 0 \<or> M d <s 0 \<or> W d <s 0 \<or> D d <s 0 \<or> TH d <s 0 \<or> TM d <s 0 \<or> flt (TS d) fzero"

definition abs_int :: "int64 \<Rightarrow> int64" where
  "abs_int n = (if n <s 0 then - n else n)"

definition absFloat :: "float64 \<Rightarrow> float64" where
  "absFloat f = (if flt f fzero then fneg f else f)"

text \<open>
  The template is data, and \<open>Execute\<close> interprets it; so is it here. An expression is the
  dot, a field or method of the dot, or a call of a function of the \<open>FuncMap\<close> with one
  argument (every call of this template has one). A node is literal text, an action
  \<open>{{e}}\<close> that prints a value, or \<open>{{if e}}...{{end}}\<close>.
\<close>

datatype expr = Dot | Field string | Call string expr

datatype node = Text string | Action expr | If_node expr "node list"

datatype val = VInt int64 | VFloat float64 | VBool bool | VString string | VDuration Duration

definition tmpl :: "node list" where
  "tmpl =
     [If_node (Call ''isNegative'' Dot) [Text ''-''],
      Text ''P'',
      If_node (Field ''Y'') [Action (Call ''abs'' (Field ''Y'')), Text ''Y''],
      If_node (Field ''M'') [Action (Call ''abs'' (Field ''M'')), Text ''M''],
      If_node (Field ''W'') [Action (Call ''abs'' (Field ''W'')), Text ''W''],
      If_node (Field ''D'') [Action (Call ''abs'' (Field ''D'')), Text ''D''],
      If_node (Field ''HasTimePart'') [Text ''T''],
      If_node (Field ''TH'') [Action (Call ''abs'' (Field ''TH'')), Text ''H''],
      If_node (Field ''TM'') [Action (Call ''abs'' (Field ''TM'')), Text ''M''],
      If_node (Field ''TS'')
        [Action (Call ''formatSeconds'' (Call ''absFloat'' (Field ''TS''))), Text ''S'']]"

text \<open>
  Evaluation fails, as \<open>Execute\<close> does, on a name the dot does not have, on a function
  that is not in the \<open>FuncMap\<close>, and on an argument of the wrong type.
\<close>

definition eval_field :: "string \<Rightarrow> Duration \<Rightarrow> error + val" where
  "eval_field name d =
     (if name = ''Y'' then Inr (VInt (Y d))
      else if name = ''M'' then Inr (VInt (M d))
      else if name = ''W'' then Inr (VInt (W d))
      else if name = ''D'' then Inr (VInt (D d))
      else if name = ''TH'' then Inr (VInt (TH d))
      else if name = ''TM'' then Inr (VInt (TM d))
      else if name = ''TS'' then Inr (VFloat (TS d))
      else if name = ''IsZero'' then Inr (VBool (IsZero d))
      else if name = ''IsNegative'' then Inr (VBool (IsNegative d))
      else if name = ''Negate'' then Inr (VDuration (Negate d))
      else if name = ''HasTimePart'' then Inr (VBool (HasTimePart d))
      else Inl ErrExec)"

fun call_func :: "string \<Rightarrow> val \<Rightarrow> error + val" where
  "call_func name (VFloat f) =
     (if name = ''formatSeconds'' then Inr (VString (formatSeconds f))
      else if name = ''absFloat'' then Inr (VFloat (absFloat f))
      else Inl ErrExec)"
| "call_func name (VDuration d) =
     (if name = ''isNegative'' then Inr (VBool (isNegative d)) else Inl ErrExec)"
| "call_func name (VInt n) =
     (if name = ''abs'' then Inr (VInt (abs_int n)) else Inl ErrExec)"
| "call_func name v = Inl ErrExec"

fun eval :: "expr \<Rightarrow> Duration \<Rightarrow> error + val" where
  "eval Dot d = Inr (VDuration d)"
| "eval (Field name) d = eval_field name d"
| "eval (Call name e) d = (case eval e d of Inl err \<Rightarrow> Inl err | Inr v \<Rightarrow> call_func name v)"

text \<open>The truth of a value in \<open>{{if}}\<close>: not the zero value of its type; a struct is true.\<close>

fun truth :: "val \<Rightarrow> bool" where
  "truth (VInt n) = (n \<noteq> 0)"
| "truth (VFloat f) = (\<not> feq f fzero)"
| "truth (VBool b) = b"
| "truth (VString s) = (s \<noteq> [])"
| "truth (VDuration d) = True"

text \<open>
  The package is \<open>html/template\<close>: what an action prints goes through the HTML escaper,
  which replaces these seven characters (NUL by U+FFFD).
\<close>

definition html_escape_char :: "char \<Rightarrow> string" where
  "html_escape_char c =
     (if c = CHR 0x00 then [CHR 0xEF, CHR 0xBF, CHR 0xBD]
      else if c = CHR 0x22 then ''&#34;''
      else if c = CHR ''&'' then ''&amp;''
      else if c = CHR 0x27 then ''&#39;''
      else if c = CHR ''+'' then ''&#43;''
      else if c = CHR ''<'' then ''&lt;''
      else if c = CHR ''>'' then ''&gt;''
      else [c])"

definition html_escape :: "string \<Rightarrow> string" where
  "html_escape s = concat (map html_escape_char s)"

text \<open>
  What an action prints is \<open>fmt.Sprint\<close> of the value, escaped. Printing a Duration would
  call its \<open>String\<close> method again; no action of the template prints one, and here it
  counts as an error of execution.
\<close>

fun print_val :: "val \<Rightarrow> error + string" where
  "print_val (VInt n) = Inr (html_escape (Itoa n))"
| "print_val (VFloat f) = Inr (html_escape (Sprintf_g f))"
| "print_val (VBool b) = Inr (if b then ''true'' else ''false'')"
| "print_val (VString s) = Inr (html_escape s)"
| "print_val (VDuration d) = Inl ErrExec"

fun exec_node :: "node \<Rightarrow> Duration \<Rightarrow> error + string"
  and exec_nodes :: "node list \<Rightarrow> Duration \<Rightarrow> error + string" where
  "exec_node (Text s) d = Inr s"
| "exec_node (Action e) d = (case eval e d of Inl err \<Rightarrow> Inl err | Inr v \<Rightarrow> print_val v)"
| "exec_node (If_node e body) d =
     (case eval e d of
        Inl err \<Rightarrow> Inl err
      | Inr v \<Rightarrow> if truth v then exec_nodes body d else Inr [])"
| "exec_nodes [] d = Inr []"
| "exec_nodes (n # ns) d =
     (case exec_node n d of
        Inl err \<Rightarrow> Inl err
      | Inr s \<Rightarrow> (case exec_nodes ns d of Inl err \<Rightarrow> Inl err | Inr r \<Rightarrow> Inr (s @ r)))"

definition Execute :: "node list \<Rightarrow> Duration \<Rightarrow> error + string" where
  "Execute t d = exec_nodes t d"

section \<open>String\<close>

text \<open>\<open>Inl err\<close> is \<open>panic(err)\<close>, \<open>Inr s\<close> the string returned.\<close>

definition String :: "Duration \<Rightarrow> error + string" where
  "String d =
     (if IsZero d then Inr ''P0D''
      else (case Execute tmpl d of Inl err \<Rightarrow> Inl err | Inr s \<Rightarrow> Inr s))"

section \<open>Definitions used to state the properties\<close>

text \<open>
  For concrete instances of \<open>Shift\<close> and \<open>Unshift\<close>, the free host: a point in time is
  the sequence of host calls that produced it, so two results are equal exactly when the
  same calls were made, in the same order, with the same arguments.
\<close>

datatype time_trace =
  Start
| AddDate_call time_trace int64 int64 int64
| Add_call time_trace int64

text \<open>
  The comparison as the specification words it: when either value has a non-zero date
  field the date fields alone are compared, otherwise the time fields.
\<close>

definition has_date :: "Duration \<Rightarrow> bool" where
  "has_date d \<longleftrightarrow> Y d \<noteq> 0 \<or> M d \<noteq> 0 \<or> W d \<noteq> 0 \<or> D d \<noteq> 0"

definition time_less :: "Duration \<Rightarrow> Duration \<Rightarrow> bool" where
  "time_less d other =
     (if TH d \<noteq> TH other then TH d <s TH other
      else if TM d \<noteq> TM other then TM d <s TM other
      else flt (TS d) (TS other))"

definition date_less :: "Duration \<Rightarrow> Duration \<Rightarrow> bool" where
  "date_less d other =
     (if Y d \<noteq> Y other then Y d <s Y other
      else if M d \<noteq> M other then M d <s M other
      else if W d \<noteq> W other then W d <s W other
      else if D d \<noteq> D other then D d <s D other
      else False)"

definition LessThan_as_specified :: "Duration \<Rightarrow> Duration \<Rightarrow> bool" where
  "LessThan_as_specified d other =
     (if has_date d \<or> has_date other then date_less d other else time_less d other)"

text \<open>The lexicographic order on all seven fields, \<open>Y, M, W, D, TH, TM, TS\<close>.\<close>

definition lex_less :: "Duration \<Rightarrow> Duration \<Rightarrow> bool" where
  "lex_less d other =
     (if Y d \<noteq> Y other then Y d <s Y other
      else if M d \<noteq> M other then M d <s M other
      else if W d \<noteq> W other then W d <s W other
      else if D d \<noteq> D other then D d <s D other
      else time_less d other)"

text \<open>
  The text of the template written out field by field: what \<open>Execute\<close> produces, as a
  function of the Duration.
\<close>

definition unit_text :: "int64 \<Rightarrow> char \<Rightarrow> string" where
  "unit_text n u = (if n \<noteq> 0 then html_escape (Itoa (abs_int n)) @ [u] else [])"

definition render :: "Duration \<Rightarrow> string" where
  "render d =
     (if isNegative d then ''-'' else []) @ ''P''
     @ unit_text (Y d) CHR ''Y'' @ unit_text (M d) CHR ''M''
     @ unit_text (W d) CHR ''W'' @ unit_text (D d) CHR ''D''
     @ (if HasTimePart d then ''T'' else [])
     @ unit_text (TH d) CHR ''H'' @ unit_text (TM d) CHR ''M''
     @ (if feq (TS d) fzero then []
        else html_escape (formatSeconds (absFloat (TS d))) @ ''S'')"

text \<open>
  \<open>negated_of dn d\<close>: the parser has filled \<open>dn\<close> under a leading minus sign with what it
  filled \<open>d\<close> with in its absence: the integer fields negated, the seconds finite and,
  by \<open>==\<close>, the negation (seconds that were never set are \<open>+0\<close> in both).
\<close>

definition negated_of :: "Duration \<Rightarrow> Duration \<Rightarrow> bool" where
  "negated_of dn d \<longleftrightarrow>
     Y dn = - Y d \<and> M dn = - M d \<and> W dn = - W d \<and> D dn = - D d \<and>
     TH dn = - TH d \<and> TM dn = - TM d \<and> is_finite (TS d) \<and> feq (TS dn) (fneg (TS d))"

text \<open>The nanoseconds \<open>timeDuration\<close> takes from the seconds: \<open>int64(TS * 1e9)\<close>.\<close>

definition seconds_ns :: "Duration \<Rightarrow> int64" where
  "seconds_ns d = float64_to_int64 (fmul (TS d) (int64_to_float64 Second))"

text \<open>\<open>pow2_le a n d\<close>: \<open>2 ^ a \<le> n / d\<close>, for an integer \<open>a\<close> of either sign.\<close>

definition pow2_le :: "int \<Rightarrow> nat \<Rightarrow> nat \<Rightarrow> bool" where
  "pow2_le a n d \<longleftrightarrow> d * 2 ^ nat a \<le> n * 2 ^ nat (- a)"

text \<open>
  \<open>whole_ns x n\<close>: the float64 \<open>x\<close> is finite and its exact value is \<open>n\<close> nanoseconds,
  that is \<open>x * 10^9 = n\<close> without any rounding (\<open>x\<close> is a multiple of \<open>2^-9\<close> seconds).
\<close>

fun whole_ns :: "float64 \<Rightarrow> int \<Rightarrow> bool" where
  "whole_ns (Finite s k) n \<longleftrightarrow> snum s k * 1000000000 = n * int (fden k)"
| "whole_ns (Infinity s) n \<longleftrightarrow> False"
| "whole_ns NaN n \<longleftrightarrow> False"

text \<open>
  \<open>Shift\<close> as the specification words it: the date step is taken when \<open>Y\<close>, \<open>M\<close> or the
  combined day count \<open>W*7 + D\<close> is non-zero.
\<close>

definition Shift_as_specified ::
  "('t \<Rightarrow> int64 \<Rightarrow> int64 \<Rightarrow> int64 \<Rightarrow> 't) \<Rightarrow> ('t \<Rightarrow> int64 \<Rightarrow> 't) \<Rightarrow> Duration \<Rightarrow> 't \<Rightarrow> 't" where
  "Shift_as_specified Time_AddDate Time_Add d t =
     (let totalDays = W d * 7 + D d;
          t1 = (if Y d \<noteq> 0 \<or> M d \<noteq> 0 \<or> totalDays \<noteq> 0
                then Time_AddDate t (Y d) (M d) totalDays
                else t)
      in Time_Add t1 (timeDuration d))"

text \<open>
  \<open>floor_ns k\<close>: the whole nanoseconds in \<open>Finite s k\<close> seconds, \<open>\<lfloor>|x| * 10^9\<rfloor>\<close> for the
  exact value \<open>x\<close>; \<open>signed_ns s n\<close> gives \<open>n\<close> the sign \<open>s\<close>.
\<close>

definition floor_ns :: "nat \<Rightarrow> nat" where
  "floor_ns k = fnum k * 1000000000 div fden k"

definition signed_ns :: "bool \<Rightarrow> nat \<Rightarrow> int" where
  "signed_ns s n = (if s then - int n else int n)"

section \<open>Evaluation rules\<close>

text \<open>
  The recursive functions are unfolded on literals only: their equations would unfold
  without end on a variable.
\<close>

declare bitlen_nat.simps [simp del]
declare nat_digits.simps [simp del]
declare lead_zeros.simps [simp del]
declare shortest_from.simps [simp del]
declare Sprintf_g.simps [simp del]
declare Sprintf_f0.simps [simp del]

lemmas bitlen_nat_eval =
  bitlen_nat.simps [of 0] bitlen_nat.simps [of 1] bitlen_nat.simps [of "Suc 0"]
  bitlen_nat.simps [of "numeral n"] for n

lemmas nat_digits_eval =
  nat_digits.simps [of 0] nat_digits.simps [of 1] nat_digits.simps [of "Suc 0"]
  nat_digits.simps [of "numeral n"] for n

lemmas lead_zeros_eval =
  lead_zeros.simps [of 0 d] lead_zeros.simps [of 1 "numeral m"]
  lead_zeros.simps [of "Suc 0" "numeral m"]
  lead_zeros.simps [of "numeral n" "numeral m"] for n m d

lemmas float64_eval =
  round_frac_def flog2_def Let_def fnum_def fden_def mant_def bexp_def snum_def
  bitlen_nat_eval int64_to_float64_def fzero_def MinInt64_def
  Second_def Minute_def Hour_def

lemmas parse_eval =
  ParseISO8601_def FindStringSubmatch_def pattern_def unit_group_def SubexpNames_def
  Atoi_def ParseFloat_def split_sign_def is_digit_def digit_val_def digits_val_def
  set_int_field_def zero_Duration_def

lemmas template_eval =
  String_def Execute_def tmpl_def eval_field_def isNegative_def abs_int_def absFloat_def
  html_escape_def html_escape_char_def Itoa_def nat_digits_eval IsZero_def HasTimePart_def
  word_sless_alt zero_Duration_def

section \<open>float64: values that are represented exactly\<close>

text \<open>
  \<open>round_frac\<close> returns a finite value or the infinity of its sign, never NaN. When the
  exact value \<open>n / d\<close> is that of a normal float64 \<open>k\<close>, it returns \<open>k\<close>: there is nothing
  to round. Every integer below \<open>2^53\<close> is such a value.
\<close>

lemma Finite_or_Infinity:
  "(\<exists>k. (if a then Finite s i else if b then Finite s j else Infinity s) = Finite s k)
   \<or> (if a then Finite s i else if b then Finite s j else Infinity s) = Infinity s"
  by simp

lemma round_frac_shape: "(\<exists>k. round_frac s n d = Finite s k) \<or> round_frac s n d = Infinity s"
  unfolding round_frac_def Let_def by (rule Finite_or_Infinity)

lemma bitlen_nat_bounds: "0 < n \<Longrightarrow> 2 ^ (bitlen_nat n - 1) \<le> n \<and> n < 2 ^ bitlen_nat n"
proof (induction n rule: bitlen_nat.induct)
  case (1 n)
  show ?case
  proof (cases "n div 2 = 0")
    case True
    with "1.prems" have "n = 1" by (simp add: div_eq_0_iff) 
    then show ?thesis by (simp add: bitlen_nat_eval)
  next
    case False
    with "1.prems" "1.IH" have ih: "2 ^ (bitlen_nat (n div 2) - 1) \<le> n div 2" "n div 2 < 2 ^ bitlen_nat (n div 2)"
      by auto
    have pos: "0 < bitlen_nat (n div 2)" using False by (subst bitlen_nat.simps) simp
    have b: "bitlen_nat n = Suc (bitlen_nat (n div 2))" using "1.prems" by (subst bitlen_nat.simps) simp
    have "(2::nat) ^ bitlen_nat (n div 2) = 2 * 2 ^ (bitlen_nat (n div 2) - 1)"
      using pos by (cases "bitlen_nat (n div 2)") simp_all
    moreover have "2 * (n div 2) \<le> n" by simp
    ultimately have lo: "2 ^ bitlen_nat (n div 2) \<le> n" using ih(1) by linarith
    have "n < 2 * (n div 2) + 2" by arith
    then have hi: "n < 2 * 2 ^ bitlen_nat (n div 2)" using ih(2) by linarith
    show ?thesis using lo hi by (simp add: b)
  qed
qed

lemma flog2_alt:
  "flog2 n d = (if pow2_le (int (bitlen_nat n) - int (bitlen_nat d)) n d
                then int (bitlen_nat n) - int (bitlen_nat d)
                else int (bitlen_nat n) - int (bitlen_nat d) - 1)"
  by (simp add: flog2_def pow2_le_def Let_def)

lemma pow2_le_mono: "pow2_le a n d \<Longrightarrow> b \<le> a \<Longrightarrow> pow2_le b n d"
proof -
  assume le: "pow2_le a n d" and ba: "b \<le> a"
  have p: "(2::nat) ^ nat b \<le> 2 ^ nat a" using ba by (intro power_increasing) auto
  have q: "(2::nat) ^ nat (- a) \<le> 2 ^ nat (- b)" using ba by (intro power_increasing) auto
  show ?thesis
  proof (cases "0 \<le> a")
    case True
    then have "d * 2 ^ nat a \<le> n" using le by (simp add: pow2_le_def)
    moreover have "d * 2 ^ nat b \<le> d * 2 ^ nat a" using p by simp
    moreover have "n \<le> n * 2 ^ nat (- b)" by simp
    ultimately show ?thesis unfolding pow2_le_def by linarith
  next
    case False
    then have b0: "nat b = 0" and a0: "nat a = 0" using ba by auto
    have s1: "d \<le> n * 2 ^ nat (- a)" using le a0 by (simp add: pow2_le_def)
    have s2: "n * 2 ^ nat (- a) \<le> n * 2 ^ nat (- b)" by (rule mult_le_mono2 [OF q])
    show ?thesis unfolding pow2_le_def using le_trans [OF s1 s2] b0 by simp
  qed
qed


lemma bracket_low:
  fixes n d p q :: nat
  assumes "2 ^ (p - 1) \<le> n" "d < 2 ^ q" "0 < p"
  shows "d * 2 ^ (p - q - 1) \<le> n * 2 ^ (q + 1 - p)"
proof (cases "q < p")
  case True
  then have e: "q + 1 - p = 0" "q + (p - q - 1) = p - 1" by auto
  have "d * 2 ^ (p - q - 1) \<le> 2 ^ q * 2 ^ (p - q - 1)" using assms(2) by simp
  also have "\<dots> = 2 ^ (p - 1)" by (metis e(2) power_add)
  also have "\<dots> \<le> n" by (rule assms(1))
  finally show ?thesis using True by simp
next
  case False
  then have e: "p - q - 1 = 0" "(p - 1) + (q + 1 - p) = q" using assms(3) by auto
  have "d \<le> 2 ^ q" using assms(2) by simp
  also have "\<dots> = 2 ^ (p - 1) * 2 ^ (q + 1 - p)" by (metis e(2) power_add)
  also have "\<dots> \<le> n * 2 ^ (q + 1 - p)" by (rule mult_le_mono1 [OF assms(1)])
  finally show ?thesis using False by simp
qed

lemma bracket_high:
  fixes n d p q :: nat
  assumes "n < 2 ^ p" "2 ^ (q - 1) \<le> d" "0 < q"
  shows "n * 2 ^ (q - p - 1) < d * 2 ^ (p + 1 - q)"
proof (cases "p < q")
  case True
  then have e: "p + 1 - q = 0" "p + (q - p - 1) = q - 1" by auto
  have "n * 2 ^ (q - p - 1) < 2 ^ p * 2 ^ (q - p - 1)" using assms(1) by simp
  also have "\<dots> = 2 ^ (q - 1)" by (metis e(2) power_add)
  also have "\<dots> \<le> d" by (rule assms(2))
  finally show ?thesis using True by simp
next
  case False
  then have e: "q - p - 1 = 0" "(q - 1) + (p + 1 - q) = p" using assms(3) by auto
  have "n < 2 ^ p" by (rule assms(1))
  also have "\<dots> = 2 ^ (q - 1) * 2 ^ (p + 1 - q)" by (metis e(2) power_add)
  also have "\<dots> \<le> d * 2 ^ (p + 1 - q)" by (rule mult_le_mono1 [OF assms(2)])
  finally show ?thesis using False by simp
qed

lemma bitlen_nat_pos: "0 < n \<Longrightarrow> 0 < bitlen_nat n"
  by (subst bitlen_nat.simps) simp

lemma flog2_bracket:
  assumes "0 < n" "0 < d"
  shows "pow2_le (int (bitlen_nat n) - int (bitlen_nat d) - 1) n d"
    and "\<not> pow2_le (int (bitlen_nat n) - int (bitlen_nat d) + 1) n d"
proof -
  let ?p = "bitlen_nat n" and ?q = "bitlen_nat d"
  note bn = bitlen_nat_bounds [OF assms(1)] and bd = bitlen_nat_bounds [OF assms(2)]
  have e1: "nat (int ?p - int ?q - 1) = ?p - ?q - 1" "nat (- (int ?p - int ?q - 1)) = ?q + 1 - ?p"
    by auto
  have e2: "nat (int ?p - int ?q + 1) = ?p + 1 - ?q" "nat (- (int ?p - int ?q + 1)) = ?q - ?p - 1"
    by auto
  show "pow2_le (int ?p - int ?q - 1) n d"
    unfolding pow2_le_def e1
    using bracket_low [of ?p n d ?q] bn bd bitlen_nat_pos [OF assms(1)] by simp
  show "\<not> pow2_le (int ?p - int ?q + 1) n d"
    unfolding pow2_le_def e2 not_le
    using bracket_high [of n ?p ?q d] bn bd bitlen_nat_pos [OF assms(2)] by simp
qed

lemma flog2_eq:
  assumes "0 < n" "0 < d" and lo: "pow2_le a n d" and hi: "\<not> pow2_le (a + 1) n d"
  shows "flog2 n d = a"
proof -
  define c where "c = int (bitlen_nat n) - int (bitlen_nat d)"
  have b1: "pow2_le (c - 1) n d" and b2: "\<not> pow2_le (c + 1) n d"
    using flog2_bracket [OF assms(1,2)] by (simp_all add: c_def)
  have "a < c + 1" using pow2_le_mono [OF lo, of "c + 1"] b2 by fastforce
  moreover have "c - 1 < a + 1" using pow2_le_mono [OF b1, of "a + 1"] hi by fastforce
  ultimately have ac: "a = c \<or> a = c - 1" by linarith
  show ?thesis
  proof (cases "pow2_le c n d")
    case True
    with ac hi have "a = c" by auto
    then show ?thesis using True by (simp add: flog2_alt c_def)
  next
    case False
    with ac lo have "a = c - 1" by auto
    then show ?thesis using False by (simp add: flog2_alt c_def)
  qed
qed


lemma normal_parts:
  assumes "2 ^ 52 \<le> k" "k < 1076 * 2 ^ 52"
  shows "bexp k = k div 2 ^ 52" "1 \<le> bexp k" "bexp k \<le> 1075"
    "fnum k = mant k" "fden k = 2 ^ (1075 - bexp k)"
    "2 ^ 52 \<le> mant k" "mant k < 2 ^ 53" "k = (bexp k - 1) * 2 ^ 52 + mant k"
proof -
  have d1: "1 \<le> k div 2 ^ 52" using assms(1) by (simp add: Suc_le_eq div_greater_zero_iff)
  have d2: "k div 2 ^ 52 < 1076" using assms(2) by (simp add: less_mult_imp_div_less)
  show b: "bexp k = k div 2 ^ 52" using d1 by (simp add: bexp_def)
  show "1 \<le> bexp k" using d1 b by simp
  show b3: "bexp k \<le> 1075" using d2 b by simp
  have m: "mant k = 2 ^ 52 + k mod 2 ^ 52" using assms(1) by (simp add: mant_def)
  show "fnum k = mant k" using b3 by (simp add: fnum_def)
  show "fden k = 2 ^ (1075 - bexp k)" by (simp add: fden_def)
  show "2 ^ 52 \<le> mant k" by (simp add: m)
  have "k mod 2 ^ 52 < 2 ^ 52" by simp
  then show "mant k < 2 ^ 53" unfolding m by simp
  have "k = (k div 2 ^ 52) * 2 ^ 52 + k mod 2 ^ 52" by simp
  also have "\<dots> = (k div 2 ^ 52 - 1) * 2 ^ 52 + (2 ^ 52 + k mod 2 ^ 52)"
    using d1 by (simp add: algebra_simps)
  finally show "k = (bexp k - 1) * 2 ^ 52 + mant k" by (simp only: b m)
qed


lemma value_bracket:
  fixes n d mt E :: nat
  assumes v: "n * 2 ^ (1075 - E) = mt * d" and d: "0 < d"
    and m1: "2 ^ 52 \<le> mt" and m2: "mt < 2 ^ 53" and E: "E \<le> 1075"
  shows "pow2_le (int E - 1023) n d" and "\<not> pow2_le (int E - 1022) n d"
proof -
  have e1: "nat (int E - 1023) = E - 1023" "nat (- (int E - 1023)) = 1023 - E" by auto
  have e2: "nat (int E - 1022) = E - 1022" "nat (- (int E - 1022)) = 1022 - E" by auto
  have lo: "d * 2 ^ (E - 1023) \<le> n * 2 ^ (1023 - E)"
  proof (cases "1023 \<le> E")
    case True
    then have x: "(E - 1023) + (1075 - E) = 52" using E by simp
    have "d * 2 ^ (E - 1023) * 2 ^ (1075 - E) = d * 2 ^ 52"
      by (metis x power_add mult.assoc)
    also have "\<dots> \<le> mt * d" using m1 by (simp add: mult.commute)
    also have "\<dots> = n * 2 ^ (1075 - E)" by (rule v [symmetric])
    finally have "d * 2 ^ (E - 1023) \<le> n" by simp
    then show ?thesis using True by simp
  next
    case False
    then have x: "(1023 - E) + 52 = 1075 - E" by simp
    have "d * 2 ^ 52 \<le> mt * d" using m1 by (simp add: mult.commute)
    also have "\<dots> = n * 2 ^ (1075 - E)" by (rule v [symmetric])
    also have "\<dots> = n * 2 ^ (1023 - E) * 2 ^ 52" by (metis x power_add mult.assoc)
    finally have "d \<le> n * 2 ^ (1023 - E)" by simp
    then show ?thesis using False by simp
  qed
  have hi: "n * 2 ^ (1022 - E) < d * 2 ^ (E - 1022)"
  proof (cases "1022 \<le> E")
    case True
    then have x: "(E - 1022) + (1075 - E) = 53" using E by simp
    have "n * 2 ^ (1075 - E) = mt * d" by (rule v)
    also have "\<dots> < 2 ^ 53 * d" using m2 d by simp
    also have "\<dots> = d * 2 ^ (E - 1022) * 2 ^ (1075 - E)"
      by (metis x power_add mult.assoc mult.commute)
    finally have "n < d * 2 ^ (E - 1022)" by simp
    then show ?thesis using True by simp
  next
    case False
    then have x: "(1022 - E) + 53 = 1075 - E" by simp
    have "n * 2 ^ (1022 - E) * 2 ^ 53 = n * 2 ^ (1075 - E)" by (metis x power_add mult.assoc)
    also have "\<dots> = mt * d" by (rule v)
    also have "\<dots> < d * 2 ^ 53" using m2 d by (simp add: mult.commute)
    finally have "n * 2 ^ (1022 - E) < d" by simp
    then show ?thesis using False by simp
  qed
  show "pow2_le (int E - 1023) n d" unfolding pow2_le_def e1 by (rule lo)
  show "\<not> pow2_le (int E - 1022) n d" unfolding pow2_le_def e2 not_le by (rule hi)
qed

lemma round_frac_exact:
  assumes k: "2 ^ 52 \<le> k" "k < 1076 * 2 ^ 52" and d: "0 < d"
    and v: "n * fden k = fnum k * d"
  shows "round_frac s n d = Finite s k"
proof -
  note p = normal_parts [OF k]
  define E where "E = bexp k"
  have v': "n * 2 ^ (1075 - E) = mant k * d" using v p(4,5) by (simp add: E_def)
  have n0: "0 < n"
  proof (rule ccontr)
    assume "\<not> 0 < n"
    then have "mant k * d = 0" using v' by simp
    then show False using p(6) d by simp
  qed
  have El: "E \<le> 1075" and E1: "1 \<le> E" using p(2,3) by (simp_all add: E_def)
  have "pow2_le (int E - 1023) n d" "\<not> pow2_le (int E - 1023 + 1) n d"
    using value_bracket [OF v' d p(6) p(7) El] by simp_all
  then have fl: "flog2 n d = int E - 1023" by (rule flog2_eq [OF n0 d])
  have e: "max (flog2 n d) (- 1022) = int E - 1023" using fl E1 by simp
  have x1: "nat (52 - (int E - 1023)) = 1075 - E" by auto
  have x2: "nat (int E - 1023 - 52) = 0" using El by simp
  have x3: "nat (int E - 1023 + 1022) = E - 1" by auto
  have sn: "n * 2 ^ (1075 - E) div d = mant k" "n * 2 ^ (1075 - E) mod d = 0"
    using d by (simp_all add: v')
  have kk: "(E - 1) * 2 ^ 52 + mant k = k" using p(8) by (simp add: E_def)
  have kv: "k < 2047 * 2 ^ 52" using k(2) by simp
  show ?thesis
    unfolding round_frac_def Let_def e x1 x2 x3
    using n0 d kv kk by (simp add: sn)
qed

lemma float_of_nat:
  assumes "0 < N" "N < 2 ^ 53"
  shows "\<exists>kN. 2 ^ 52 \<le> kN \<and> kN < 1076 * 2 ^ 52 \<and> fnum kN = N * fden kN"
proof -
  define b where "b = bitlen_nat N"
  have bb: "2 ^ (b - 1) \<le> N" "N < 2 ^ b"
    using bitlen_nat_bounds [OF assms(1)] by (simp_all add: b_def)
  have b1: "1 \<le> b" using bitlen_nat_pos [OF assms(1)] by (simp add: b_def)
  have b53: "b \<le> 53"
  proof (rule ccontr)
    assume "\<not> b \<le> 53"
    then have "53 \<le> b - 1" by simp
    then have "(2::nat) ^ 53 \<le> 2 ^ (b - 1)" by (intro power_increasing) simp_all
    with bb(1) assms(2) show False by simp
  qed
  define mt where "mt = N * 2 ^ (53 - b)"
  have x: "(b - 1) + (53 - b) = 52" "b + (53 - b) = 53" using b1 b53 by simp_all
  have "(2::nat) ^ 52 = 2 ^ (b - 1) * 2 ^ (53 - b)" by (metis x(1) power_add)
  also have "\<dots> \<le> N * 2 ^ (53 - b)" using bb(1) by simp
  finally have m1: "2 ^ 52 \<le> mt" by (simp add: mt_def)
  have "N * 2 ^ (53 - b) < 2 ^ b * 2 ^ (53 - b)" using bb(2) by simp
  also have "\<dots> = (2::nat) ^ 53" by (metis x(2) power_add)
  finally have m2: "mt < 2 ^ 53" by (simp add: mt_def)
  define kN where "kN = (1021 + b) * 2 ^ 52 + mt"
  have k1: "2 ^ 52 \<le> kN" using m1 by (simp add: kN_def)
  have k2: "kN < 1076 * 2 ^ 52" using m2 b53 by (simp add: kN_def)
  note p = normal_parts [OF k1 k2]
  define r where "r = mt - 2 ^ 52"
  have r: "r < 2 ^ 52" "mt = 2 ^ 52 + r" using m1 m2 by (simp_all add: r_def)
  have kr: "kN = r + (1022 + b) * 2 ^ 52" by (simp add: kN_def r(2) algebra_simps)
  have dv: "kN div 2 ^ 52 = 1022 + b" unfolding kr using r(1) by simp
  have be: "bexp kN = 1022 + b" using p(1) dv by simp
  have mk: "mant kN = mt" using p(8) unfolding be by (simp add: kN_def)
  have fd: "fden kN = 2 ^ (53 - b)" using p(5) unfolding be by simp
  have "fnum kN = N * fden kN" using p(4) mk fd by (simp add: mt_def)
  with k1 k2 show ?thesis by blast
qed

lemma float64_Second: "int64_to_float64 Second = Finite False 4741671816366391296"
  by (simp add: float64_eval)

lemma Second_parts:
  "fnum 4741671816366391296 = 1000000000 * 8388608" "fden 4741671816366391296 = 8388608"
  by (simp_all add: fnum_def fden_def mant_def bexp_def)

lemma round_frac_nat:
  assumes "0 < N" "N < 2 ^ 53" "0 < d" "n = N * d"
  shows "\<exists>kN. round_frac s n d = Finite s kN \<and> fnum kN = N * fden kN
           \<and> 2 ^ 52 \<le> kN \<and> kN < 1076 * 2 ^ 52"
proof -
  obtain kN where k: "2 ^ 52 \<le> kN" "kN < 1076 * 2 ^ 52" "fnum kN = N * fden kN"
    using float_of_nat [OF assms(1,2)] by blast
  have "n * fden kN = fnum kN * d" using k(3) assms(4) by (simp add: mult_ac)
  then have "round_frac s n d = Finite s kN" by (rule round_frac_exact [OF k(1,2) assms(3)])
  with k show ?thesis by blast
qed


lemma fden_pos: "0 < fden k"
  by (simp add: fden_def)


lemma whole_ns_cases:
  assumes "whole_ns x n"
  obtains s k where "x = Finite s k" "n = 0" "fnum k = 0"
  | s k where "x = Finite s k" "n \<noteq> 0" "s = (n < 0)" "fnum k * 1000000000 = nat \<bar>n\<bar> * fden k"
proof (cases x)
  case (Finite s k)
  with assms have v: "snum s k * 1000000000 = n * int (fden k)" by simp
  have fp: "0 < int (fden k)" using fden_pos [of k] by simp
  show ?thesis
  proof (cases "n = 0")
    case True
    with v have "fnum k = 0" by (simp add: snum_def split: if_splits)
    with Finite True that(1) show ?thesis by blast
  next
    case False
    show ?thesis
    proof (cases s)
      case True
      with v have a: "- (int (fnum k) * 1000000000) = n * int (fden k)" by (simp add: snum_def)
      have "n < 0"
      proof (rule ccontr)
        assume "\<not> n < 0"
        with False have "0 < n" by simp
        then have "0 < n * int (fden k)" using fp by simp
        with a show False by simp
      qed
      moreover then have "int (fnum k * 1000000000) = int (nat \<bar>n\<bar> * fden k)" using a by simp
      then have "fnum k * 1000000000 = nat \<bar>n\<bar> * fden k" by (simp only: of_nat_eq_iff)
      ultimately show ?thesis using that(2) [of s k] Finite False True by simp
    next
      case sF: False
      with v have a: "int (fnum k) * 1000000000 = n * int (fden k)" by (simp add: snum_def)
      have "0 < n"
      proof (rule ccontr)
        assume "\<not> 0 < n"
        with False have "n < 0" by simp
        then have "n * int (fden k) < 0" using fp by (simp add: mult_neg_pos)
        with a show False by simp
      qed
      moreover then have "int (fnum k * 1000000000) = int (nat \<bar>n\<bar> * fden k)" using a by simp
      then have "fnum k * 1000000000 = nat \<bar>n\<bar> * fden k" by (simp only: of_nat_eq_iff)
      ultimately show ?thesis using that(2) [of s k] Finite False sF by simp
    qed
  qed
next
  case (Infinity s)
  with assms show ?thesis by simp
next
  case NaN
  with assms show ?thesis by simp
qed

lemma float64_to_int64_nat:
  assumes "fnum kN = N * fden kN" "N < 2 ^ 53"
  shows "float64_to_int64 (Finite s kN) = word_of_int (if s then - int N else int N)"
proof -
  have "fnum kN div fden kN = N" using assms(1) fden_pos [of kN] by simp
  moreover have "int N < 2 ^ 63" using assms(2) by simp
  ultimately show ?thesis by (simp add: Let_def)
qed

lemma fmul_Second_whole:
  assumes v: "fnum k * 1000000000 = N * fden k" and N: "0 < N" "N < 2 ^ 53"
  shows "\<exists>kN. fmul (Finite s k) (int64_to_float64 Second) = Finite s kN \<and> fnum kN = N * fden kN"
proof -
  have "fnum k * (1000000000 * 8388608) = N * (fden k * 8388608)"
    using v by (metis mult.assoc)
  moreover have "0 < fden k * 8388608" using fden_pos [of k] by simp
  ultimately obtain kN where
    "round_frac s (fnum k * (1000000000 * 8388608)) (fden k * 8388608) = Finite s kN"
    "fnum kN = N * fden kN"
    using round_frac_nat [OF N, of "fden k * 8388608" "fnum k * (1000000000 * 8388608)" s] by blast
  then show ?thesis unfolding float64_Second by (simp add: Second_parts)
qed

lemma seconds_ns_whole:
  assumes w: "whole_ns (TS d) n" and n: "\<bar>n\<bar> < 2 ^ 53"
  shows "seconds_ns d = word_of_int n"
  using w
proof (cases rule: whole_ns_cases)
  case (1 s k)
  then have "k = 0" by (simp add: fnum_def mant_def split: if_splits)
  then show ?thesis using 1
    by (simp add: seconds_ns_def float64_Second round_frac_def fnum_def mant_def)
next
  case (2 s k)
  define N where "N = nat \<bar>n\<bar>"
  have N: "0 < N" "N < 2 ^ 53" using 2(2) n by (simp_all add: N_def)
  obtain kN where kN: "fmul (Finite s k) (int64_to_float64 Second) = Finite s kN"
    "fnum kN = N * fden kN"
    using fmul_Second_whole [OF 2(4) [folded N_def] N] by blast
  have "(if s then - int N else int N) = n" using 2(3) by (simp add: N_def)
  then show ?thesis
    unfolding seconds_ns_def 2(1) kN(1) float64_to_int64_nat [OF kN(2) N(2)] by simp
qed



text \<open>
  The general case. \<open>round_frac\<close> returns one of the two neighbours of the exact value in
  the grid of its exponent, so a value between two consecutive integers below \<open>2^53\<close>
  is rounded to a float64 between them: the product of the seconds with \<open>1e9\<close>,
  truncated, is the whole nanoseconds of the exact product or one more.
\<close>

lemma flog2_spec:
  assumes "0 < n" "0 < d"
  shows "pow2_le (flog2 n d) n d" and "\<not> pow2_le (flog2 n d + 1) n d"
proof -
  define c where "c = int (bitlen_nat n) - int (bitlen_nat d)"
  have b1: "pow2_le (c - 1) n d" and b2: "\<not> pow2_le (c + 1) n d"
    using flog2_bracket [OF assms] by (simp_all add: c_def)
  have f: "flog2 n d = (if pow2_le c n d then c else c - 1)"
    unfolding c_def by (rule flog2_alt)
  show "pow2_le (flog2 n d) n d" using b1 by (simp add: f)
  show "\<not> pow2_le (flog2 n d + 1) n d" using b2 by (simp add: f)
qed

lemma pow2_le_scale:
  assumes "a \<le> c" "0 \<le> c"
  shows "pow2_le a n d \<longleftrightarrow> d * 2 ^ nat c \<le> n * 2 ^ nat (c - a)"
proof (cases "0 \<le> a")
  case True
  then have e: "nat (- a) = 0" "nat c = nat a + nat (c - a)" using assms by simp_all
  have eq: "d * 2 ^ nat c = d * 2 ^ nat a * 2 ^ nat (c - a)" by (simp add: e(2) power_add)
  show ?thesis unfolding pow2_le_def e(1) eq by simp
next
  case False
  then have e: "nat a = 0" "nat (c - a) = nat (- a) + nat c" using assms by simp_all
  have eq: "n * 2 ^ nat (c - a) = n * 2 ^ nat (- a) * 2 ^ nat c" by (simp add: e(2) power_add)
  show ?thesis unfolding pow2_le_def e(1) eq by simp
qed

lemma enc_value:
  assumes t: "t \<le> 1074" and mr: "mr \<le> 2 ^ 53" and n: "1 \<le> t \<Longrightarrow> 2 ^ 52 \<le> mr"
  shows "fnum (t * 2 ^ 52 + mr) * 2 ^ (1074 - t) = mr * fden (t * 2 ^ 52 + mr)"
proof -
  consider (sub) "mr < 2 ^ 52" | (norm) "2 ^ 52 \<le> mr" "mr < 2 ^ 53" | (carry) "mr = 2 ^ 53"
    using mr by linarith
  then show ?thesis
  proof cases
    case sub
    have t0: "t = 0"
    proof (rule ccontr)
      assume "t \<noteq> 0"
      then have "1 \<le> t" by simp
      from n [OF this] sub show False by simp
    qed
    show ?thesis using sub by (simp add: t0 fnum_def fden_def mant_def bexp_def)
  next
    case norm
    define r where "r = mr - 2 ^ 52"
    have r: "r < 2 ^ 52" "mr = 2 ^ 52 + r" using norm by (simp_all add: r_def)
    have kr: "t * 2 ^ 52 + mr = r + (t + 1) * 2 ^ 52" by (simp add: r(2) algebra_simps)
    have dv: "(t * 2 ^ 52 + mr) div 2 ^ 52 = t + 1" unfolding kr using r(1) by simp
    have md: "(t * 2 ^ 52 + mr) mod 2 ^ 52 = r"
      unfolding kr mod_mult_self1 using r(1) by (rule mod_less)
    have ge: "\<not> t * 2 ^ 52 + mr < 2 ^ 52" using norm(1) by simp
    have be: "bexp (t * 2 ^ 52 + mr) = t + 1" unfolding bexp_def dv by simp
    have ma: "mant (t * 2 ^ 52 + mr) = mr" unfolding mant_def md using ge r(2) by simp
    have x: "t + 1 - 1075 = 0" "1075 - (t + 1) = 1074 - t" using t by simp_all
    show ?thesis unfolding fnum_def fden_def be ma x by simp
  next
    case carry
    have kr: "t * 2 ^ 52 + mr = (t + 2) * 2 ^ 52" by (simp add: carry algebra_simps)
    have dv: "(t * 2 ^ 52 + mr) div 2 ^ 52 = t + 2" unfolding kr by simp
    have md: "(t * 2 ^ 52 + mr) mod 2 ^ 52 = 0" unfolding kr by simp
    have ge: "\<not> t * 2 ^ 52 + mr < 2 ^ 52" using carry by simp
    have be: "bexp (t * 2 ^ 52 + mr) = t + 2" unfolding bexp_def dv by simp
    have ma: "mant (t * 2 ^ 52 + mr) = 2 ^ 52" unfolding mant_def md using ge by simp
    show ?thesis
    proof (cases "t = 1074")
      case True
      show ?thesis unfolding fnum_def fden_def be ma by (simp add: True carry)
    next
      case False
      with t have x: "t + 2 - 1075 = 0" "1075 - (t + 2) = 1073 - t" "1074 - t = Suc (1073 - t)"
        by simp_all
      show ?thesis unfolding fnum_def fden_def be ma x by (simp add: carry)
    qed
  qed
qed

lemma grid_upper:
  assumes "\<not> pow2_le (e + 1) n d" "e \<le> 52"
  shows "n * 2 ^ nat (52 - e) div d < 2 ^ 53"
proof -
  have sc: "pow2_le (e + 1) n d \<longleftrightarrow> d * 2 ^ nat 53 \<le> n * 2 ^ nat (53 - (e + 1))"
    using assms(2) by (intro pow2_le_scale) simp_all
  have y: "53 - (e + 1) = 52 - e" "nat 53 = 53" by simp_all
  have "\<not> d * 2 ^ 53 \<le> n * 2 ^ nat (52 - e)" using assms(1) unfolding sc y .
  then have "n * 2 ^ nat (52 - e) < d * 2 ^ 53" by (simp only: not_le)
  then have "n * 2 ^ nat (52 - e) < 2 ^ 53 * d" by (metis mult.commute)
  then show ?thesis by (rule less_mult_imp_div_less)
qed

lemma grid_lower:
  assumes "pow2_le e n d" "e \<le> 52" "0 < d"
  shows "2 ^ 52 \<le> n * 2 ^ nat (52 - e) div d"
proof -
  have sc: "pow2_le e n d \<longleftrightarrow> d * 2 ^ nat 52 \<le> n * 2 ^ nat (52 - e)"
    using assms(2) by (intro pow2_le_scale) simp_all
  have y: "nat 52 = 52" by simp
  have "d * 2 ^ 52 \<le> n * 2 ^ nat (52 - e)" using assms(1) unfolding sc y .
  then have "2 ^ 52 * d \<le> n * 2 ^ nat (52 - e)" by (metis mult.commute)
  then show ?thesis using assms(3) by (simp only: less_eq_div_iff_mult_less_eq)
qed


lemma if_or_cases: "(if c then a + 1 else a) = a \<or> (if c then a + 1 else a) = a + (1::nat)"
  by simp

lemma if_add_cases: "(if c then b + a + 1 else b + a) = b + (if c then a + 1 else a)" for a b :: nat
  by simp

lemma round_frac_grid:
  assumes n: "0 < n" and d: "0 < d" and top: "\<not> pow2_le 53 n d"
  shows "\<exists>t mr. round_frac s n d = Finite s (t * 2 ^ 52 + mr) \<and> t \<le> 1074 \<and> mr \<le> 2 ^ 53
           \<and> (1 \<le> t \<longrightarrow> 2 ^ 52 \<le> mr)
           \<and> (mr = n * 2 ^ (1074 - t) div d \<or> mr = n * 2 ^ (1074 - t) div d + 1)"
proof -
  define e where "e = flog2 n d"
  note sp = flog2_spec [OF n d, folded e_def]
  have e52: "e \<le> 52"
  proof (rule ccontr)
    assume "\<not> e \<le> 52"
    then have "53 \<le> e" by simp
    with sp(1) have "pow2_le 53 n d" by (rule pow2_le_mono)
    with top show False ..
  qed
  define e' where "e' = max e (- 1022)"
  define t where "t = nat (e' + 1022)"
  have e'r: "- 1022 \<le> e'" "e' \<le> 52" "e \<le> e'" using e52 by (simp_all add: e'_def)
  have t: "t \<le> 1074" using e'r(2) by (simp add: t_def)
  have x1: "nat (52 - e') = 1074 - t" using e'r(1,2) by (simp add: t_def)
  have x2: "nat (e' - 52) = 0" using e'r(2) by simp
  have x3: "nat (e' + 1022) = t" by (simp add: t_def)
  define sn where "sn = n * 2 ^ (1074 - t)"
  define m where "m = sn div d"
  have "\<not> pow2_le (e' + 1) n d"
  proof
    assume "pow2_le (e' + 1) n d"
    moreover have "e + 1 \<le> e' + 1" using e'r(3) by simp
    ultimately have "pow2_le (e + 1) n d" by (rule pow2_le_mono)
    with sp(2) show False ..
  qed
  then have m53: "m < 2 ^ 53"
    unfolding m_def sn_def x1 [symmetric] using e'r(2) by (rule grid_upper)
  have m52: "2 ^ 52 \<le> m" if "1 \<le> t"
  proof -
    have "- 1022 < e'" using that unfolding t_def by linarith
    then have "e' = e" unfolding e'_def by linarith
    with sp(1) have "pow2_le e' n d" by simp
    then show ?thesis unfolding m_def sn_def x1 [symmetric] using e'r(2) d by (rule grid_lower)
  qed
  define mr where
    "mr = (if d < 2 * (sn mod d) \<or> (2 * (sn mod d) = d \<and> odd m) then m + 1 else m)"
  have mrm: "mr = m \<or> mr = m + 1" unfolding mr_def by (rule if_or_cases)
  have mr53: "mr \<le> 2 ^ 53" using mrm m53 by linarith
  have mr52: "1 \<le> t \<longrightarrow> 2 ^ 52 \<le> mr" using mrm m52 by linarith
  have kv: "t * 2 ^ 52 + mr < 2047 * 2 ^ 52" using t mr53 by simp
  have sd: "d * 2 ^ 0 = d" by simp
  have k: "(if d < 2 * (sn mod d) \<or> (2 * (sn mod d) = d \<and> odd (sn div d))
            then t * 2 ^ 52 + sn div d + 1 else t * 2 ^ 52 + sn div d) = t * 2 ^ 52 + mr"
    unfolding mr_def m_def by (rule if_add_cases)
  have n0: "n \<noteq> 0" using n by simp
  have "round_frac s n d = Finite s (t * 2 ^ 52 + mr)"
    unfolding round_frac_def Let_def e_def [symmetric] e'_def [symmetric] x1 x2 x3
      sn_def [symmetric] sd k
    using n0 kv by (simp only: if_False if_True)
  with t mr53 mr52 mrm show ?thesis unfolding m_def sn_def by blast
qed

lemma round_frac_between:
  assumes d: "0 < d" and lo: "N * d \<le> n" and hi: "n < (N + 1) * d" and N: "N + 1 < 2 ^ 53"
  shows "\<exists>k'. round_frac s n d = Finite s k'
           \<and> (fnum k' div fden k' = N \<or> fnum k' div fden k' = N + 1)"
proof (cases "n = 0")
  case True
  with lo d have "N = 0" by simp
  then show ?thesis using True by (simp add: round_frac_def fnum_def mant_def)
next
  case False
  then have n: "0 < n" by simp
  have "n < 2 ^ 53 * d"
  proof -
    have "(N + 1) * d \<le> 2 ^ 53 * d" using N by (intro mult_le_mono1) simp
    with hi show ?thesis by (rule less_le_trans)
  qed
  then have top: "\<not> pow2_le 53 n d" by (simp add: pow2_le_def mult.commute)
  obtain t mr where r: "round_frac s n d = Finite s (t * 2 ^ 52 + mr)" "t \<le> 1074" "mr \<le> 2 ^ 53"
    "1 \<le> t \<longrightarrow> 2 ^ 52 \<le> mr"
    "mr = n * 2 ^ (1074 - t) div d \<or> mr = n * 2 ^ (1074 - t) div d + 1"
    using round_frac_grid [OF n d top, of s] by blast
  define G :: nat where "G = 2 ^ (1074 - t)"
  define k' where "k' = t * 2 ^ 52 + mr"
  have G: "0 < G" by (simp add: G_def)
  have ev: "fnum k' * G = mr * fden k'"
    unfolding k'_def G_def using r(2,3,4) by (intro enc_value) simp_all
  have "N * G * d \<le> n * G" using lo by (simp add: mult.assoc mult.commute mult_le_mono1)
  then have low: "N * G \<le> n * G div d" using d by (simp add: less_eq_div_iff_mult_less_eq)
  have "n * G < (N + 1) * d * G" using hi G by simp
  then have "n * G < (N + 1) * G * d" by (simp only: mult.assoc mult.commute [of d G])
  then have "n * G div d < (N + 1) * G" by (rule less_mult_imp_div_less)
  with low r(5) have mrb: "N * G \<le> mr" "mr \<le> (N + 1) * G" unfolding G_def by auto
  have fp: "0 < fden k'" by (rule fden_pos)
  have "N * fden k' * G \<le> mr * fden k'" using mrb(1) by (simp add: mult.assoc mult.commute mult_le_mono1)
  then have "N * fden k' * G \<le> fnum k' * G" by (simp add: ev)
  then have a: "N * fden k' \<le> fnum k'" using G by simp
  have "mr * fden k' \<le> (N + 1) * G * fden k'" using mrb(2) by (rule mult_le_mono1)
  then have "mr * fden k' \<le> (N + 1) * fden k' * G" by (metis mult.assoc mult.commute)
  then have "fnum k' * G \<le> (N + 1) * fden k' * G" by (simp add: ev)
  then have b: "fnum k' \<le> (N + 1) * fden k'" using G by simp
  have "N \<le> fnum k' div fden k'" using a fp by (simp add: less_eq_div_iff_mult_less_eq)
  moreover have "fnum k' div fden k' \<le> (N + 1) * fden k' div fden k'" using b by (rule div_le_mono)
  then have "fnum k' div fden k' \<le> N + 1" using fp by simp
  ultimately have "fnum k' div fden k' = N \<or> fnum k' div fden k' = N + 1" by linarith
  with r(1) show ?thesis unfolding k'_def by blast
qed

lemma seconds_ns_bracket:
  assumes ts: "TS d = Finite s k" and b: "floor_ns k + 1 < 2 ^ 53"
  shows "seconds_ns d = word_of_int (signed_ns s (floor_ns k))
         \<or> seconds_ns d = word_of_int (signed_ns s (floor_ns k + 1))"
proof -
  define N where "N = floor_ns k"
  define n where "n = fnum k * (1000000000 * 8388608)"
  define dd where "dd = fden k * 8388608"
  have fp: "0 < fden k" by (rule fden_pos)
  have dd: "0 < dd" using fp by (simp add: dd_def)
  have "N * fden k \<le> fnum k * 1000000000" by (simp add: N_def floor_ns_def)
  then have "N * fden k * 8388608 \<le> fnum k * 1000000000 * 8388608" by simp
  then have lo: "N * dd \<le> n" by (simp add: n_def dd_def mult.assoc)
  have "fnum k * 1000000000 < (N + 1) * fden k"
    using dividend_less_div_times [OF fp, of "fnum k * 1000000000"]
    by (simp add: N_def floor_ns_def)
  then have "fnum k * 1000000000 * 8388608 < (N + 1) * fden k * 8388608" by simp
  then have hi: "n < (N + 1) * dd" by (simp add: n_def dd_def mult.assoc)
  obtain k' where k': "round_frac s n dd = Finite s k'"
    "fnum k' div fden k' = N \<or> fnum k' div fden k' = N + 1"
    using round_frac_between [OF dd lo hi b [folded N_def], of s] by blast
  have m: "fmul (TS d) (int64_to_float64 Second) = Finite s k'"
    unfolding ts float64_Second using k'(1) by (simp add: Second_parts n_def dd_def)
  have r: "int (fnum k' div fden k') < 2 ^ 63" using k'(2) b by (auto simp add: N_def)
  have "seconds_ns d = word_of_int (signed_ns s (fnum k' div fden k'))"
    unfolding seconds_ns_def m using r by (simp add: Let_def signed_ns_def)
  with k'(2) show ?thesis by (auto simp add: N_def)
qed

section \<open>float64 arithmetic\<close>

lemma snum_not: "snum (\<not> s) k = - snum s k"
  by (simp add: snum_def)

lemma fsub_fadd_fneg: "fsub x y = fadd x (fneg y)"
  by (cases x; cases y) (simp_all add: snum_not)

lemma round_frac_neg: "round_frac (\<not> s) n d = fneg (round_frac s n d)"
  by (simp add: round_frac_def Let_def)

lemma fmul_fneg_left: "fmul (fneg x) c = fneg (fmul x c)"
  by (cases x; cases c) (simp_all add: round_frac_neg[symmetric])

lemma float64_to_int64_fneg: "float64_to_int64 (fneg z) = - float64_to_int64 z"
proof (cases z)
  case (Finite s k)
  define t where "t = int (fnum k div fden k)"
  have t0: "0 \<le> t" by (simp add: t_def)
  have m: "- MinInt64 = MinInt64" by (simp add: MinInt64_def)
  have w: "(word_of_int (- (2 ^ 63)) :: int64) = MinInt64" by (simp add: MinInt64_def)
  show ?thesis
  proof (cases "t < 2 ^ 63")
    case True
    with t0 show ?thesis using Finite by (cases s) (simp_all add: Let_def t_def[symmetric])
  next
    case False
    note big = this
    show ?thesis
    proof (cases "t = 2 ^ 63")
      case True
      then show ?thesis using Finite m w by (cases s) (simp_all add: Let_def t_def[symmetric])
    next
      case False
      with big have "2 ^ 63 < t" by simp
      then show ?thesis using Finite m by (cases s) (simp_all add: Let_def t_def[symmetric])
    qed
  qed
qed (simp_all add: MinInt64_def)

lemma feq_refl: "feq x x \<longleftrightarrow> \<not> is_nan x"
  by (cases x) simp_all

section \<open>Subtraction is addition of the negation\<close>

lemma round_frac_not_nan: "\<not> is_nan (round_frac s n d)"
  using round_frac_shape [of s n d] by auto

text \<open>
  A float64 difference is NaN when an operand is NaN or when both are infinities of the
  same sign, and in no other case.
\<close>

lemma fsub_nan:
  "is_nan (fsub x y) \<longleftrightarrow>
     is_nan x \<or> is_nan y \<or> (\<exists>s. x = Infinity s \<and> y = Infinity s)"
  by (cases x; cases y) (simp_all add: Let_def round_frac_not_nan)

text \<open>
  C10, as stated: for all Durations \<open>a\<close> and \<open>b\<close>, \<open>Subtract a b\<close> equals
  \<open>Add a (Negate b)\<close> component-wise, the seconds included. Equality of the components is
  Go's \<open>==\<close>, the method \<open>Equal\<close>. With seconds \<open>+Inf\<close> in both \<open>a\<close> and \<open>b\<close> the
  difference \<open>Inf - Inf\<close> and the sum \<open>Inf + (-Inf)\<close> are both NaN, and NaN is not \<open>==\<close>
  to NaN: the two results are not \<open>Equal\<close>.
\<close>

theorem Subtract_Add_Negate_counterexample:
  "\<not> Equal (Subtract (zero_Duration\<lparr>TS := Infinity False\<rparr>) (zero_Duration\<lparr>TS := Infinity False\<rparr>))
       (Add (zero_Duration\<lparr>TS := Infinity False\<rparr>) (Negate (zero_Duration\<lparr>TS := Infinity False\<rparr>)))
   \<and> TS (Subtract (zero_Duration\<lparr>TS := Infinity False\<rparr>) (zero_Duration\<lparr>TS := Infinity False\<rparr>)) = NaN
   \<and> TS (Add (zero_Duration\<lparr>TS := Infinity False\<rparr>) (Negate (zero_Duration\<lparr>TS := Infinity False\<rparr>))) = NaN"
  by (simp add: Equal_def Subtract_def Add_def Negate_def zero_Duration_def)

text \<open>
  C10, amended: for all Durations \<open>a\<close> and \<open>b\<close>, \<open>Subtract a b\<close> equals
  \<open>Add a (Negate b)\<close> component-wise (\<open>Equal\<close>: \<open>==\<close> on each of the seven fields, the
  float64 difference \<open>a.TS - b.TS\<close> against the sum \<open>a.TS + (-b.TS)\<close>) exactly when the
  seconds of neither are NaN and they are not two infinities of the same sign; in
  particular whenever both seconds are finite. Then the two seconds are the same float64,
  also in the sign of a zero. In the excluded cases the seconds of both results are NaN.
\<close>

theorem Subtract_Equal_Add_Negate:
  "(Equal (Subtract a b) (Add a (Negate b)) \<longleftrightarrow>
      \<not> (is_nan (TS a) \<or> is_nan (TS b) \<or> (\<exists>s. TS a = Infinity s \<and> TS b = Infinity s)))
   \<and> (is_nan (TS (Subtract a b)) \<longleftrightarrow> is_nan (TS (Add a (Negate b))))
   \<and> (\<not> is_nan (TS (Subtract a b)) \<longrightarrow> TS (Subtract a b) = TS (Add a (Negate b)))"
proof -
  have "TS (Add a (Negate b)) = fsub (TS a) (TS b)" "TS (Subtract a b) = fsub (TS a) (TS b)"
    by (simp_all add: Add_def Negate_def Subtract_def fsub_fadd_fneg)
  moreover have "Equal (Subtract a b) (Add a (Negate b)) \<longleftrightarrow> \<not> is_nan (fsub (TS a) (TS b))"
    by (simp add: Equal_def Subtract_def Add_def Negate_def fsub_fadd_fneg feq_refl)
  ultimately show ?thesis by (simp add: fsub_nan)
qed

lemma fsub_4_2p5:
  "fsub (Finite False 4616189618054758400) (Finite False 4612811918334230528)
     = Finite False 4609434218613702656"
  by (simp add: float64_eval)

theorem Subtract_Equal_Add_Negate_witness:
  "Equal
     (Subtract (zero_Duration\<lparr>TH := 3, TM := 45, TS := Finite False 4616189618054758400\<rparr>)
        (zero_Duration\<lparr>TH := 2, TM := 15, TS := Finite False 4612811918334230528\<rparr>))
     (Add (zero_Duration\<lparr>TH := 3, TM := 45, TS := Finite False 4616189618054758400\<rparr>)
        (Negate (zero_Duration\<lparr>TH := 2, TM := 15, TS := Finite False 4612811918334230528\<rparr>)))
   \<and> Subtract (zero_Duration\<lparr>TH := 3, TM := 45, TS := Finite False 4616189618054758400\<rparr>)
        (zero_Duration\<lparr>TH := 2, TM := 15, TS := Finite False 4612811918334230528\<rparr>)
     = zero_Duration\<lparr>TH := 1, TM := 30, TS := Finite False 4609434218613702656\<rparr>
   \<and> TS (Add (zero_Duration\<lparr>TH := 3, TM := 45, TS := Finite False 4616189618054758400\<rparr>)
        (Negate (zero_Duration\<lparr>TH := 2, TM := 15, TS := Finite False 4612811918334230528\<rparr>)))
     = Finite False 4609434218613702656"
proof -
  let ?a = "zero_Duration\<lparr>TH := 3, TM := 45, TS := Finite False 4616189618054758400\<rparr>"
  let ?b = "zero_Duration\<lparr>TH := 2, TM := 15, TS := Finite False 4612811918334230528\<rparr>"
  have s: "Subtract ?a ?b = zero_Duration\<lparr>TH := 1, TM := 30, TS := Finite False 4609434218613702656\<rparr>"
    by (simp add: Subtract_def zero_Duration_def fsub_4_2p5 del: fsub.simps)
  then have ts: "TS (Subtract ?a ?b) = Finite False 4609434218613702656"
    by (simp add: zero_Duration_def)
  note th = Subtract_Equal_Add_Negate [of ?a ?b]
  have e: "Equal (Subtract ?a ?b) (Add ?a (Negate ?b))"
    using th [THEN conjunct1] by (simp add: zero_Duration_def)
  have "\<not> is_nan (TS (Subtract ?a ?b))" unfolding ts by simp
  with th [THEN conjunct2, THEN conjunct2]
  have "TS (Subtract ?a ?b) = TS (Add ?a (Negate ?b))" by blast
  then have "TS (Add ?a (Negate ?b)) = Finite False 4609434218613702656" unfolding ts by simp
  with e s show ?thesis by blast
qed

section \<open>Unshift is Shift of the negation\<close>

lemma timeDuration_Negate: "timeDuration (Negate d) = - timeDuration d"
  by (simp add: timeDuration_def Negate_def fmul_fneg_left float64_to_int64_fneg)

text \<open>
  C3. For every Duration \<open>d\<close>, every point in time \<open>t\<close> and every host, \<open>Unshift d t\<close> is
  \<open>Shift (Negate d) t\<close>: the same guard, the same call of \<open>AddDate\<close> with \<open>-Y\<close>, \<open>-M\<close> and
  \<open>-(W*7 + D)\<close>, and the same call of \<open>Add\<close> with the negated nanosecond count, although
  \<open>Unshift\<close> negates the components itself.
\<close>

theorem Unshift_eq_Shift_Negate:
  "Unshift Time_AddDate Time_Add d t = Shift Time_AddDate Time_Add (Negate d) t"
  unfolding Unshift_def Shift_def Let_def timeDuration_Negate
  by (simp add: Negate_def)

theorem Unshift_eq_Shift_Negate_witness:
  "Unshift AddDate_call Add_call (zero_Duration\<lparr>Y := 1, W := 2, D := 3, TH := 2\<rparr>) Start
     = Shift AddDate_call Add_call (Negate (zero_Duration\<lparr>Y := 1, W := 2, D := 3, TH := 2\<rparr>)) Start
   \<and> Unshift AddDate_call Add_call (zero_Duration\<lparr>Y := 1, W := 2, D := 3, TH := 2\<rparr>) Start
     = Add_call (AddDate_call Start (- 1) 0 (- 17)) (- 7200000000000)"
  using Unshift_eq_Shift_Negate
    [of AddDate_call Add_call "zero_Duration\<lparr>Y := 1, W := 2, D := 3, TH := 2\<rparr>" Start]
  by (simp add: Unshift_def timeDuration_def zero_Duration_def float64_eval)

section \<open>Shift: the date step, then the time step\<close>

text \<open>
  C2, as stated: \<open>Shift d t\<close> takes the date step when \<open>Y\<close>, \<open>M\<close> or the combined day
  count \<open>W*7 + D\<close> is non-zero. That is \<open>Shift_as_specified\<close>. The code takes it when
  \<open>Y\<close>, \<open>M\<close>, \<open>W\<close> or \<open>D\<close> is non-zero: for one week less seven days, \<open>W = 1\<close> and
  \<open>D = -7\<close>, the day count is zero and the code calls the host's \<open>AddDate\<close> with
  \<open>(0, 0, 0)\<close>, where the specified \<open>Shift\<close> makes no such call.
\<close>

theorem Shift_as_specified_counterexample:
  "Shift AddDate_call Add_call (zero_Duration\<lparr>W := 1, D := - 7\<rparr>) Start
     = Add_call (AddDate_call Start 0 0 0) 0
   \<and> Shift_as_specified AddDate_call Add_call (zero_Duration\<lparr>W := 1, D := - 7\<rparr>) Start
     = Add_call Start 0"
  by (simp add: Shift_def Shift_as_specified_def timeDuration_def zero_Duration_def float64_eval)

text \<open>
  C2, amended: for every Duration \<open>d\<close>, point in time \<open>t\<close> and host, \<open>Shift d t\<close> first,
  when \<open>Y\<close>, \<open>M\<close>, \<open>W\<close> or \<open>D\<close> is non-zero (also when \<open>W*7 + D\<close> is zero), calls the
  host's calendar-aware \<open>AddDate\<close> on \<open>t\<close> with \<open>Y\<close> years, \<open>M\<close> months and exactly
  \<open>W*7 + D\<close> days, and then calls the host's \<open>Add\<close> on the result of the date step (on
  \<open>t\<close> itself when there was none) with the flat offset of \<open>TH\<close> hours plus \<open>TM\<close> minutes
  plus the seconds in nanoseconds, \<open>int64(TS * 1e9)\<close>, summed in \<open>int64\<close>. The seconds may
  be fractional. When \<open>TS\<close> is exactly \<open>n\<close> nanoseconds (\<open>n\<close> below \<open>2^53\<close> in absolute
  value), their part of the offset is \<open>n\<close>. For every finite \<open>TS\<close> of less than \<open>2^53 - 1\<close>
  nanoseconds it is, with the sign of \<open>TS\<close>, the whole nanoseconds \<open>\<lfloor>|TS| * 10^9\<rfloor>\<close> of the
  exact value or one more: the float64 product is rounded before it is truncated.
\<close>

theorem Shift_date_step_then_offset:
  "Shift Time_AddDate Time_Add d t =
     Time_Add
       (if Y d \<noteq> 0 \<or> M d \<noteq> 0 \<or> W d \<noteq> 0 \<or> D d \<noteq> 0
        then Time_AddDate t (Y d) (M d) (W d * 7 + D d) else t)
       (TH d * Hour + TM d * Minute + seconds_ns d)
   \<and> (whole_ns (TS d) n \<and> \<bar>n\<bar> < 2 ^ 53 \<longrightarrow> seconds_ns d = word_of_int n)
   \<and> (TS d = Finite s k \<and> floor_ns k + 1 < 2 ^ 53 \<longrightarrow>
        seconds_ns d = word_of_int (signed_ns s (floor_ns k))
        \<or> seconds_ns d = word_of_int (signed_ns s (floor_ns k + 1)))"
proof -
  have "Shift Time_AddDate Time_Add d t =
     Time_Add
       (if Y d \<noteq> 0 \<or> M d \<noteq> 0 \<or> W d \<noteq> 0 \<or> D d \<noteq> 0
        then Time_AddDate t (Y d) (M d) (W d * 7 + D d) else t)
       (TH d * Hour + TM d * Minute + seconds_ns d)"
    by (simp add: Shift_def Let_def timeDuration_def seconds_ns_def)
  moreover have "whole_ns (TS d) n \<and> \<bar>n\<bar> < 2 ^ 53 \<longrightarrow> seconds_ns d = word_of_int n"
    using seconds_ns_whole [of d n] by blast
  moreover have "TS d = Finite s k \<and> floor_ns k + 1 < 2 ^ 53 \<longrightarrow>
        seconds_ns d = word_of_int (signed_ns s (floor_ns k))
        \<or> seconds_ns d = word_of_int (signed_ns s (floor_ns k + 1))"
    using seconds_ns_bracket [of d s k] by blast
  ultimately show ?thesis by blast
qed

lemma floor_ns_tenth: "floor_ns 4591870180066957722 = 100000000"
  by (simp add: floor_ns_def fnum_def fden_def mant_def bexp_def)

lemma floor_ns_three_halves: "floor_ns 4609434218613702656 = 1500000000"
  by (simp add: floor_ns_def fnum_def fden_def mant_def bexp_def)

lemma seconds_ns_tenth:
  "seconds_ns (zero_Duration\<lparr>TS := Finite False 4591870180066957722\<rparr>) = 100000000"
  by (simp add: seconds_ns_def zero_Duration_def float64_eval)

theorem Shift_date_step_then_offset_witness:
  "Shift AddDate_call Add_call
      (zero_Duration\<lparr>Y := 10, M := 5, W := 1, D := 1, TH := 5, TM := 10,
         TS := Finite False 4609434218613702656\<rparr>) Start
     = Add_call (AddDate_call Start 10 5 8) 18601500000000
   \<and> whole_ns (Finite False 4609434218613702656) 1500000000
   \<and> seconds_ns (zero_Duration\<lparr>Y := 10, M := 5, W := 1, D := 1, TH := 5, TM := 10,
         TS := Finite False 4609434218613702656\<rparr>) = 1500000000
   \<and> floor_ns 4591870180066957722 = 100000000
   \<and> Shift AddDate_call Add_call (zero_Duration\<lparr>TS := Finite False 4591870180066957722\<rparr>) Start
     = Add_call Start 100000000"
proof -
  let ?d = "zero_Duration\<lparr>Y := 10, M := 5, W := 1, D := 1, TH := 5, TM := 10,
         TS := Finite False 4609434218613702656\<rparr>"
  let ?e = "zero_Duration\<lparr>TS := Finite False 4591870180066957722\<rparr>"
  have w: "whole_ns (Finite False 4609434218613702656) 1500000000"
    by (simp add: snum_def fnum_def fden_def mant_def bexp_def)
  then have wd: "whole_ns (TS ?d) 1500000000" by (simp add: zero_Duration_def)
  have b: "\<bar>1500000000 :: int\<bar> < 2 ^ 53" by simp
  have td: "TS ?d = Finite False 4609434218613702656" by (simp add: zero_Duration_def)
  have fd: "floor_ns 4609434218613702656 + 1 < 2 ^ 53" unfolding floor_ns_three_halves by simp
  note th = Shift_date_step_then_offset
    [of AddDate_call Add_call ?d Start 1500000000 False 4609434218613702656]
  have s: "seconds_ns ?d = 1500000000"
    using th [THEN conjunct2, THEN conjunct1] wd b by simp
  have "seconds_ns ?d = word_of_int (signed_ns False (floor_ns 4609434218613702656))
        \<or> seconds_ns ?d = word_of_int (signed_ns False (floor_ns 4609434218613702656 + 1))"
    using th [THEN conjunct2, THEN conjunct2] td fd by blast
  have "Shift AddDate_call Add_call ?d Start =
      Add_call (AddDate_call Start (Y ?d) (M ?d) (W ?d * 7 + D ?d))
        (TH ?d * Hour + TM ?d * Minute + seconds_ns ?d)"
    using th [THEN conjunct1] by (simp add: zero_Duration_def)
  then have sd: "Shift AddDate_call Add_call ?d Start
      = Add_call (AddDate_call Start 10 5 8) 18601500000000"
    unfolding s by (simp add: zero_Duration_def Hour_def Minute_def)
  note th2 = Shift_date_step_then_offset
    [of AddDate_call Add_call ?e Start 0 False 4591870180066957722]
  have te: "TS ?e = Finite False 4591870180066957722" by (simp add: zero_Duration_def)
  have fe: "floor_ns 4591870180066957722 + 1 < 2 ^ 53" unfolding floor_ns_tenth by simp
  have "seconds_ns ?e = word_of_int (signed_ns False (floor_ns 4591870180066957722))
        \<or> seconds_ns ?e = word_of_int (signed_ns False (floor_ns 4591870180066957722 + 1))"
    using th2 [THEN conjunct2, THEN conjunct2] te fe by blast
  have "Shift AddDate_call Add_call ?e Start = Add_call Start (seconds_ns ?e)"
    using th2 [THEN conjunct1] by (simp add: zero_Duration_def)
  then have se: "Shift AddDate_call Add_call ?e Start = Add_call Start 100000000"
    unfolding seconds_ns_tenth .
  from sd w s floor_ns_tenth se show ?thesis by blast
qed

section \<open>LessThan is the lexicographic order on the seven fields\<close>

text \<open>
  C7, as stated: when either value has a non-zero date field, \<open>LessThan\<close> compares the date
  fields \<open>Y, M, W, D\<close> lexicographically, and only when both date parts are all zero does it
  compare the time fields. That is \<open>LessThan_as_specified\<close>, and the code differs from it
  where the date parts are equal and not zero: one day and one hour is less than one day
  and two hours.
\<close>

theorem LessThan_as_specified_counterexample:
  "LessThan (zero_Duration\<lparr>D := 1, TH := 1\<rparr>) (zero_Duration\<lparr>D := 1, TH := 2\<rparr>)
   \<and> \<not> LessThan_as_specified (zero_Duration\<lparr>D := 1, TH := 1\<rparr>) (zero_Duration\<lparr>D := 1, TH := 2\<rparr>)"
  by (simp add: LessThan_def LessThan_as_specified_def has_date_def date_less_def
      zero_Duration_def word_sless_alt)

text \<open>
  C7, amended: for all Durations \<open>a\<close> and \<open>b\<close>, \<open>LessThan a b\<close> compares the seven fields
  lexicographically in the order \<open>Y, M, W, D, TH, TM, TS\<close>: the first date field that
  differs decides, and when the four date fields are equal (in particular when both date
  parts are all zero) the time fields \<open>TH, TM, TS\<close> decide, \<open>TS\<close> by float64 \<open><\<close>.
\<close>

theorem LessThan_lexicographic: "LessThan a b = lex_less a b"
  by (auto simp add: LessThan_def lex_less_def time_less_def Let_def)

theorem LessThan_lexicographic_witness:
  "LessThan (zero_Duration\<lparr>D := 1, TH := 1\<rparr>) (zero_Duration\<lparr>D := 1, TH := 2\<rparr>)
     = lex_less (zero_Duration\<lparr>D := 1, TH := 1\<rparr>) (zero_Duration\<lparr>D := 1, TH := 2\<rparr>)
   \<and> lex_less (zero_Duration\<lparr>D := 1, TH := 1\<rparr>) (zero_Duration\<lparr>D := 1, TH := 2\<rparr>)
   \<and> \<not> lex_less (zero_Duration\<lparr>Y := 1\<rparr>) (zero_Duration\<lparr>M := 13\<rparr>)"
  using LessThan_lexicographic [of "zero_Duration\<lparr>D := 1, TH := 1\<rparr>" "zero_Duration\<lparr>D := 1, TH := 2\<rparr>"]
  by (simp add: lex_less_def time_less_def zero_Duration_def word_sless_alt)

section \<open>String never fails\<close>

lemma exec_node_unit:
  "eval_field f d = Inr (VInt n) \<Longrightarrow>
   exec_node (If_node (Field f) [Action (Call ''abs'' (Field f)), Text [u]]) d
     = Inr (unit_text n u)"
  by (simp add: unit_text_def)

lemma exec_node_sign:
  "exec_node (If_node (Call ''isNegative'' Dot) [Text ''-'']) d
     = Inr (if isNegative d then ''-'' else [])"
  by simp

lemma exec_node_T:
  "exec_node (If_node (Field ''HasTimePart'') [Text ''T'']) d
     = Inr (if HasTimePart d then ''T'' else [])"
  by (simp add: eval_field_def)

lemma exec_node_seconds:
  "exec_node
     (If_node (Field ''TS'')
        [Action (Call ''formatSeconds'' (Call ''absFloat'' (Field ''TS''))), Text ''S'']) d
     = Inr (if feq (TS d) fzero then []
            else html_escape (formatSeconds (absFloat (TS d))) @ ''S'')"
  by (simp add: eval_field_def)

lemma exec_nodes_Cons:
  "exec_node n d = Inr s \<Longrightarrow> exec_nodes ns d = Inr r \<Longrightarrow> exec_nodes (n # ns) d = Inr (s @ r)"
  by simp

lemma Execute_tmpl: "Execute tmpl d = Inr (render d)"
  unfolding Execute_def tmpl_def render_def
  apply (rule exec_nodes_Cons, rule exec_node_sign)
  apply (rule exec_nodes_Cons, rule exec_node.simps)
  apply (rule exec_nodes_Cons, rule exec_node_unit, simp add: eval_field_def)
  apply (rule exec_nodes_Cons, rule exec_node_unit, simp add: eval_field_def)
  apply (rule exec_nodes_Cons, rule exec_node_unit, simp add: eval_field_def)
  apply (rule exec_nodes_Cons, rule exec_node_unit, simp add: eval_field_def)
  apply (rule exec_nodes_Cons, rule exec_node_T)
  apply (rule exec_nodes_Cons, rule exec_node_unit, simp add: eval_field_def)
  apply (rule exec_nodes_Cons, rule exec_node_unit, simp add: eval_field_def)
  apply (simp only: exec_nodes.simps exec_node_seconds sum.case append_Nil2)
  done

lemma String_render: "String d = Inr (if IsZero d then ''P0D'' else render d)"
  by (simp add: String_def Execute_tmpl)

text \<open>
  C9. \<open>String\<close> is total: for every Duration, whatever its integer fields and its seconds
  (finite or not), it returns a string. The template's execution meets none of its errors
  (every field and function it names exists and every argument has the type the function
  takes), so the branch \<open>panic(err)\<close> is not reached.
\<close>

theorem String_total: "\<exists>s. String d = Inr s"
  by (simp add: String_render)

theorem String_total_witness:
  "(\<exists>s. String (zero_Duration\<lparr>Y := 1, TM := - 5\<rparr>) = Inr s)
   \<and> String (zero_Duration\<lparr>Y := 1, TM := - 5\<rparr>) = Inr ''-P1YT5M''"
  using String_total [of "zero_Duration\<lparr>Y := 1, TM := - 5\<rparr>"]
  by (simp add: String_render render_def unit_text_def template_eval float64_eval)

section \<open>The zero Duration and P0D\<close>

lemma ParseISO8601_P0D: "ParseISO8601 ''P0D'' = (zero_Duration, None)"
  by (simp add: parse_eval)

text \<open>
  C8. \<open>String\<close> of the all-zero Duration returns exactly \<open>P0D\<close> (not the empty string, not
  \<open>P\<close> alone), and \<open>ParseISO8601\<close> of \<open>P0D\<close> succeeds with a result for which \<open>IsZero\<close>
  holds.
\<close>

theorem zero_Duration_P0D:
  "String zero_Duration = Inr ''P0D''
   \<and> snd (ParseISO8601 ''P0D'') = None
   \<and> IsZero (fst (ParseISO8601 ''P0D''))"
  by (simp add: String_render ParseISO8601_P0D IsZero_def zero_Duration_def fzero_def snum_def)

theorem zero_Duration_P0D_witness:
  "String (fst (ParseISO8601 ''P0D'')) = Inr ''P0D''"
  using zero_Duration_P0D by (simp add: ParseISO8601_P0D)

section \<open>An overflowing component\<close>

lemma ParseISO8601_no_match:
  "\<not> MatchString pattern s \<Longrightarrow> ParseISO8601 s = (zero_Duration, Some ErrParse)"
  by (simp add: MatchString_def ParseISO8601_def)

text \<open>
  C4. The claim: whenever \<open>ParseISO8601\<close> returns an error, the Duration returned with it is
  the zero value. On \<open>P1Y99999999999999999999M\<close> the months overflow the 64-bit \<open>int\<close>:
  the function returns \<open>ErrRange\<close> together with the Duration it had filled so far, in
  which \<open>Y\<close> is 1.
\<close>

theorem ParseISO8601_overflow_keeps_year:
  "ParseISO8601 ''P1Y99999999999999999999M'' = (zero_Duration\<lparr>Y := 1\<rparr>, Some ErrRange)
   \<and> \<not> IsZero (fst (ParseISO8601 ''P1Y99999999999999999999M''))"
  by (simp add: parse_eval IsZero_def)

section \<open>Seconds in exponent notation\<close>

lemma ParseISO8601_small_seconds:
  "ParseISO8601 ''PT0.00001S'' = (zero_Duration\<lparr>TS := Finite False 4532020583610935537\<rparr>, None)"
  by (simp add: parse_eval float64_eval)

lemma dec_point_small:
  "dec_point (fnum 4532020583610935537) (fden 4532020583610935537) = - 4"
  by (simp add: dec_point_def lead_zeros_eval float64_eval)

lemma shortest_from_small: "shortest_from 4532020583610935537 (- 4) digit_counts = (1, 1)"
  by (simp add: digit_counts_def shortest_from.simps candidates_def reads_back_def float64_eval)

lemma shortest_decimal_small: "shortest_decimal 4532020583610935537 = (''1'', - 4)"
  by (simp add: shortest_decimal_def dec_point_small shortest_from_small nat_digits_eval)

lemma Sprintf_g_small: "Sprintf_g (Finite False 4532020583610935537) = ''1e-05''"
  by (simp add: Sprintf_g.simps shortest_decimal_small fmtE_def nat_digits_eval)

lemma formatSeconds_small: "formatSeconds (Finite False 4532020583610935537) = ''1e-05''"
  by (simp add: formatSeconds_def Sprintf_g_small float64_eval)

lemma String_small_seconds:
  "String (zero_Duration\<lparr>TS := Finite False 4532020583610935537\<rparr>) = Inr ''PT1e-05S''"
  by (simp add: String_render render_def unit_text_def IsZero_def isNegative_def HasTimePart_def
      absFloat_def formatSeconds_small html_escape_def html_escape_char_def
      zero_Duration_def fzero_def snum_def fnum_def fden_def mant_def bexp_def)

lemma ParseISO8601_exponent: "ParseISO8601 ''PT1e-05S'' = (zero_Duration, Some ErrParse)"
  by (simp add: parse_eval)

text \<open>
  C1. The claim: for every input that \<open>ParseISO8601\<close> accepts, parsing the output of
  \<open>String\<close> succeeds and gives an equal value. \<open>PT0.00001S\<close> is accepted, with seconds
  \<open>1e-05\<close>; \<open>formatSeconds\<close> prints them with \<open>%g\<close>, which switches to exponent notation
  below \<open>1e-4\<close>, so \<open>String\<close> returns \<open>PT1e-05S\<close>; and that text the pattern rejects.
\<close>

theorem round_trip_fails_small_seconds:
  "snd (ParseISO8601 ''PT0.00001S'') = None
   \<and> String (fst (ParseISO8601 ''PT0.00001S'')) = Inr ''PT1e-05S''
   \<and> snd (ParseISO8601 ''PT1e-05S'') = Some ErrParse"
  by (simp add: ParseISO8601_small_seconds String_small_seconds ParseISO8601_exponent)

section \<open>A leading minus sign\<close>

lemma no_Infinity_finite:
  "(case round_frac s n d of Infinity b \<Rightarrow> Inl ErrRange | f \<Rightarrow> Inr f) = Inr v \<Longrightarrow> is_finite v"
  using round_frac_shape [of s n d] by auto

lemma ParseFloat_finite: "ParseFloat part = Inr v \<Longrightarrow> is_finite v"
  unfolding ParseFloat_def Let_def
  by (auto split: prod.splits if_splits dest: no_Infinity_finite)

lemma feq_fneg_self: "is_finite v \<Longrightarrow> feq (fneg v) (fneg v)"
  by (cases v) simp_all

lemma negated_of_zero: "negated_of zero_Duration zero_Duration"
  by (simp add: negated_of_def zero_Duration_def fzero_def snum_def fnum_def mant_def)

lemma negated_of_set_int:
  "negated_of dn d \<Longrightarrow> negated_of (set_int_field name (- v) dn) (set_int_field name v d)"
  by (simp add: negated_of_def set_int_field_def)

lemma negated_of_set_TS:
  "negated_of dn d \<Longrightarrow> is_finite v \<Longrightarrow> negated_of (dn\<lparr>TS := fneg v\<rparr>) (d\<lparr>TS := v\<rparr>)"
  by (simp add: negated_of_def feq_fneg_self)

lemma negated_of_Equal: "negated_of dn d \<Longrightarrow> Equal dn (Negate d)"
  by (simp add: negated_of_def Equal_def Negate_def)

text \<open>The loop over the groups, run with and without the sign on the same groups.\<close>

lemma parse_groups_negative:
  "parse_groups False gs d = (d', None) \<Longrightarrow> negated_of dn d \<Longrightarrow>
   \<exists>dn'. parse_groups True gs dn = (dn', None) \<and> negated_of dn' d'"
proof (induction gs arbitrary: d dn)
  case Nil
  then show ?case by simp
next
  case (Cons g gs)
  obtain name part where g: "g = (name, part)" by (cases g)
  show ?case
  proof (cases "name = [] \<or> part = []")
    case True
    with Cons g show ?thesis by simp
  next
    case False
    note present = this
    show ?thesis
    proof (cases "name \<in> set [''year'', ''month'', ''week'', ''day'', ''hour'', ''minute'']")
      case True
      note int_group = this
      show ?thesis
      proof (cases "Atoi part")
        case (Inl err)
        with Cons.prems g present int_group show ?thesis by simp
      next
        case (Inr v)
        with Cons.prems g present int_group
        have run: "parse_groups False gs (set_int_field name v d) = (d', None)" by simp
        from Cons.IH [OF run negated_of_set_int [OF Cons.prems(2)]]
        show ?thesis using g present int_group Inr by simp
      qed
    next
      case False
      note no_int = this
      show ?thesis
      proof (cases "name = ''second''")
        case True
        note sec = this
        show ?thesis
        proof (cases "ParseFloat part")
          case (Inl err)
          with Cons.prems g present sec show ?thesis by simp
        next
          case (Inr v)
          with Cons.prems g present sec
          have run: "parse_groups False gs (d\<lparr>TS := v\<rparr>) = (d', None)" by simp
          from Cons.IH [OF run negated_of_set_TS [OF Cons.prems(2) ParseFloat_finite [OF Inr]]]
          show ?thesis using g present sec Inr by simp
        qed
      next
        case False
        with Cons g present no_int show ?thesis by simp
      qed
    qed
  qed
qed

text \<open>
  The pattern is the optional sign followed by an expression that starts with \<open>P\<close>; the
  sign group matches the minus sign and nothing else, so after it the same ways of
  matching remain.
\<close>

lemma pattern_shape:
  "\<exists>R. pattern = Seq (Opt (Group [] (Chr CHR ''-''))) (Seq (Chr CHR ''P'') R)"
  by (simp add: pattern_def)

lemma filter_rest_map:
  "filter (\<lambda>(c, rest). rest = []) (map (\<lambda>(cb, s2). (g cb, s2)) xs)
     = map (\<lambda>(cb, s2). (g cb, s2)) (filter (\<lambda>(c, rest). rest = []) xs)"
  by (induction xs) auto

lemma rmatch_plain:
  assumes "take 1 s \<noteq> ''-''"
  shows "rmatch (Seq (Opt (Group [] (Chr CHR ''-''))) B) s
           = map (\<lambda>(cb, s2). ([] # cb, s2)) (rmatch B s)"
  using assms by (cases s) auto

lemma rmatch_signed:
  "rmatch (Seq (Opt (Group [] (Chr CHR ''-''))) (Seq (Chr CHR ''P'') R)) (CHR ''-'' # s)
     = map (\<lambda>(cb, s2). (''-'' # cb, s2)) (rmatch (Seq (Chr CHR ''P'') R) s)"
  by simp

lemma ParseISO8601_plain:
  assumes p: "pattern = Seq (Opt (Group [] (Chr CHR ''-''))) B" and s: "take 1 s \<noteq> ''-''"
  shows "ParseISO8601 s =
           (case filter (\<lambda>(c, rest). rest = []) (rmatch B s) of
              [] \<Rightarrow> (zero_Duration, Some ErrParse)
            | (c, rest) # others \<Rightarrow> parse_groups False (zip (group_names B) c) zero_Duration)"
proof -
  have neg: "\<not> (s \<noteq> [] \<and> hd s = CHR ''-'')" using s by (cases s) auto
  show ?thesis
    unfolding ParseISO8601_def FindStringSubmatch_def SubexpNames_def p rmatch_plain [OF s]
      filter_rest_map
    using neg by (auto split: list.splits)
qed

lemma ParseISO8601_signed:
  assumes p: "pattern = Seq (Opt (Group [] (Chr CHR ''-''))) (Seq (Chr CHR ''P'') R)"
  shows "ParseISO8601 (CHR ''-'' # s) =
           (case filter (\<lambda>(c, rest). rest = []) (rmatch (Seq (Chr CHR ''P'') R) s) of
              [] \<Rightarrow> (zero_Duration, Some ErrParse)
            | (c, rest) # others \<Rightarrow>
                parse_groups True (zip (group_names (Seq (Chr CHR ''P'') R)) c) zero_Duration)"
  unfolding ParseISO8601_def FindStringSubmatch_def SubexpNames_def p rmatch_signed
    filter_rest_map
  by (auto split: list.splits)

lemma leading_minus:
  assumes ok: "snd (ParseISO8601 s) = None" and s: "take 1 s \<noteq> ''-''"
  shows "snd (ParseISO8601 (CHR ''-'' # s)) = None
         \<and> negated_of (fst (ParseISO8601 (CHR ''-'' # s))) (fst (ParseISO8601 s))"
proof -
  obtain R where p: "pattern = Seq (Opt (Group [] (Chr CHR ''-''))) (Seq (Chr CHR ''P'') R)"
    using pattern_shape by blast
  let ?B = "Seq (Chr CHR ''P'') R"
  let ?ms = "filter (\<lambda>(c, rest). rest = []) (rmatch ?B s)"
  show ?thesis
  proof (cases ?ms)
    case Nil
    with ok show ?thesis
      by (simp add: ParseISO8601_plain [OF p s] del: rmatch.simps group_names.simps)
  next
    case (Cons m ms)
    obtain c rest where m: "m = (c, rest)" by (cases m)
    have plain: "ParseISO8601 s = parse_groups False (zip (group_names ?B) c) zero_Duration"
      by (simp only: ParseISO8601_plain [OF p s] Cons m list.case prod.case)
    have signed:
      "ParseISO8601 (CHR ''-'' # s) = parse_groups True (zip (group_names ?B) c) zero_Duration"
      by (simp only: ParseISO8601_signed [OF p] Cons m list.case prod.case)
    obtain d' where d': "parse_groups False (zip (group_names ?B) c) zero_Duration = (d', None)"
      using ok plain by (cases "parse_groups False (zip (group_names ?B) c) zero_Duration") simp
    from parse_groups_negative [OF d' negated_of_zero]
    obtain dn' where "parse_groups True (zip (group_names ?B) c) zero_Duration = (dn', None)"
      and "negated_of dn' d'" by blast
    then show ?thesis
      by (simp add: plain signed d' del: rmatch.simps group_names.simps)
  qed
qed

text \<open>The literal of the specification's example, parsed and formatted.\<close>

lemma ParseISO8601_negative_example:
  "ParseISO8601 ''-P1Y2M3DT4H5M6S'' =
     (\<lparr>Y = - 1, M = - 2, W = 0, D = - 3, TH = - 4, TM = - 5,
       TS = Finite True 4618441417868443648\<rparr>, None)"
  by (simp add: parse_eval float64_eval)

lemma formatSeconds_six: "formatSeconds (Finite False 4618441417868443648) = ''6''"
  by (simp add: formatSeconds_def Sprintf_f0.simps nat_digits_eval float64_eval)

lemma String_negative_example:
  "String \<lparr>Y = - 1, M = - 2, W = 0, D = - 3, TH = - 4, TM = - 5,
           TS = Finite True 4618441417868443648\<rparr> = Inr ''-P1Y2M3DT4H5M6S''"
  by (simp add: String_render render_def unit_text_def IsZero_def isNegative_def HasTimePart_def
      absFloat_def abs_int_def Itoa_def nat_digits_eval formatSeconds_six html_escape_def
      html_escape_char_def word_sless_alt fzero_def snum_def fnum_def fden_def mant_def bexp_def)

text \<open>
  C6, as stated: for every literal \<open>s\<close> that the grammar accepts and that does not begin
  with a minus sign, parsing \<open>-s\<close> succeeds. The pattern matches
  \<open>P99999999999999999999Y\<close>, but its years overflow the 64-bit \<open>int\<close>, and parsing it with
  the sign in front fails with \<open>ErrRange\<close> (as it does without).
\<close>

theorem leading_minus_counterexample:
  "MatchString pattern ''P99999999999999999999Y''
   \<and> take 1 ''P99999999999999999999Y'' \<noteq> ''-''
   \<and> snd (ParseISO8601 ''-P99999999999999999999Y'') = Some ErrRange"
  by (simp add: MatchString_def parse_eval)

text \<open>
  C6, amended: for every input \<open>s\<close> that \<open>ParseISO8601\<close> accepts (no error) and that does
  not begin with a minus sign, parsing \<open>-s\<close> succeeds and yields the component-wise
  negation of the result of parsing \<open>s\<close>, equal to it by \<open>Equal\<close>: the one leading sign
  negates every component that is present, the seconds included. And parsing
  \<open>-P1Y2M3DT4H5M6S\<close> and formatting the result yields exactly \<open>-P1Y2M3DT4H5M6S\<close>.
\<close>

theorem leading_minus_negates:
  "(snd (ParseISO8601 s) = None \<and> take 1 s \<noteq> ''-'' \<longrightarrow>
      snd (ParseISO8601 (CHR ''-'' # s)) = None
      \<and> Equal (fst (ParseISO8601 (CHR ''-'' # s))) (Negate (fst (ParseISO8601 s))))
   \<and> String (fst (ParseISO8601 ''-P1Y2M3DT4H5M6S'')) = Inr ''-P1Y2M3DT4H5M6S''"
  using leading_minus [of s]
  by (auto simp add: negated_of_Equal ParseISO8601_negative_example String_negative_example)

lemma ParseISO8601_witness_plain:
  "ParseISO8601 ''P1DT1.5S'' = (zero_Duration\<lparr>D := 1, TS := Finite False 4609434218613702656\<rparr>, None)"
  by (simp add: parse_eval float64_eval)

theorem leading_minus_negates_witness:
  "snd (ParseISO8601 ''P1DT1.5S'') = None
   \<and> take 1 ''P1DT1.5S'' \<noteq> ''-''
   \<and> snd (ParseISO8601 ''-P1DT1.5S'') = None
   \<and> Equal (fst (ParseISO8601 ''-P1DT1.5S'')) (Negate (fst (ParseISO8601 ''P1DT1.5S'')))
   \<and> fst (ParseISO8601 ''-P1DT1.5S'') = zero_Duration\<lparr>D := - 1, TS := Finite True 4609434218613702656\<rparr>"
proof -
  have a: "snd (ParseISO8601 ''P1DT1.5S'') = None" by (simp add: ParseISO8601_witness_plain)
  have b: "take 1 ''P1DT1.5S'' \<noteq> ''-''" by simp
  have c: "ParseISO8601 ''-P1DT1.5S''
             = (zero_Duration\<lparr>D := - 1, TS := Finite True 4609434218613702656\<rparr>, None)"
    by (simp add: parse_eval float64_eval)
  from leading_minus_negates [of "''P1DT1.5S''"] a b c show ?thesis by simp
qed

section \<open>To time.Duration and back\<close>








end
